theory Spec2Isabelle
  imports Complex_Main "HOL-Library.Multiset"
begin

section \<open>Smart emergency traffic dashboard: a shallow embedding of script.js\<close>

text \<open>
  The dashboard is one JavaScript file. Its numbers are IEEE doubles. The simulation
  reads them as real numbers, so its statements are about the exact arithmetic the code
  writes down. Rounding decides the outcome of \<^verbatim>\<open>distanceKm\<close> on nearly antipodal
  points, where the square root of a negative number is taken; for that the function is
  modelled a second time, on doubles with every operation rounded
  (\<open>distanceKm_double\<close>). Functions of the DOM and of the map library that only draw
  (icons, panning, list rendering) are left out; every variable of the script and every
  text field that a function of the script writes and a claim mentions is a field of the
  state record.
\<close>

subsection \<open>Geometry helpers\<close>

type_synonym latlng = "real \<times> real"

definition toRad :: "real \<Rightarrow> real" where
  "toRad deg = deg * pi / 180"

text \<open>
  \<^verbatim>\<open>Math.atan2(y, x)\<close> on finite arguments: the angle of the point \<open>(x, y)\<close>,
  in \<open>(-pi, pi]\<close>.
\<close>

definition atan2 :: "real \<Rightarrow> real \<Rightarrow> real" where
  "atan2 y x =
     (if 0 < x then arctan (y / x)
      else if x < 0 then (if 0 \<le> y then arctan (y / x) + pi else arctan (y / x) - pi)
      else if 0 < y then pi / 2
      else if y < 0 then - (pi / 2)
      else 0)"

text \<open>The haversine argument \<open>x\<close> of \<^verbatim>\<open>distanceKm\<close>.\<close>

definition haversine :: "latlng \<Rightarrow> latlng \<Rightarrow> real" where
  "haversine a b =
     (let dLat = toRad (fst b - fst a);
          dLon = toRad (snd b - snd a);
          lat1 = toRad (fst a);
          lat2 = toRad (fst b)
      in (sin (dLat / 2))\<^sup>2 + cos lat1 * cos lat2 * (sin (dLon / 2))\<^sup>2)"

text \<open>
  \<^verbatim>\<open>distanceKm\<close> in exact arithmetic, where \<open>0 \<le> x \<le> 1\<close> (\<open>haversine_range\<close>). This
  is the distance the simulation uses: its points are in one town, a few hundredths of a
  degree apart, where \<open>x\<close> is small (\<open>haversine_le\<close>).
\<close>

definition distanceKm :: "latlng \<Rightarrow> latlng \<Rightarrow> real" where
  "distanceKm a b =
     (let R = 6371;
          x = haversine a b;
          c = 2 * atan2 (sqrt x) (sqrt (1 - x))
      in R * c)"

text \<open>The loop of \<^verbatim>\<open>polylineDistanceKm\<close>: \<open>i\<close> runs over \<open>0 .. length - 2\<close>.\<close>

definition polylineDistanceKm :: "latlng list \<Rightarrow> real" where
  "polylineDistanceKm coords =
     fold (\<lambda>i total. total + distanceKm (coords ! i) (coords ! (i + 1)))
       [0 ..< length coords - 1] 0"

definition interpolatePoint :: "latlng \<Rightarrow> latlng \<Rightarrow> real \<Rightarrow> latlng" where
  "interpolatePoint a b t =
     (let lat = fst a + (fst b - fst a) * t;
          lng = snd a + (snd b - snd a) * t
      in (lat, lng))"

subsection \<open>The distance in the doubles of the script\<close>

text \<open>
  A JavaScript number that is not an infinity: \<open>NaN\<close>, or a finite double, which is
  read as the real number it denotes.
\<close>

datatype js_number = NaN | Num real

text \<open>The nearest integer, a tie going to the even one.\<close>

definition rint :: "real \<Rightarrow> int" where
  "rint q =
     (let n = \<lfloor>q\<rfloor>
      in if q - of_int n < 1 / 2 then n
         else if 1 / 2 < q - of_int n then n + 1
         else if even n then n else n + 1)"

text \<open>
  The double nearest to a real number (round to nearest, ties to even): 53 significant
  bits, and the fixed step \<open>2\<^sup>-\<^sup>1\<^sup>0\<^sup>7\<^sup>4\<close> below \<open>2\<^sup>-\<^sup>1\<^sup>0\<^sup>2\<^sup>2\<close>. Overflow to an infinity
  is left out: no intermediate value of \<^verbatim>\<open>distanceKm\<close> on coordinates in degrees is
  larger than a few thousand.
\<close>

definition double :: "real \<Rightarrow> real" where
  "double x =
     (if x = 0 then 0
      else let e = max (\<lfloor>log 2 \<bar>x\<bar>\<rfloor> - 52) (- 1074)
           in of_int (rint (x / 2 powr of_int e)) * 2 powr of_int e)"

text \<open>\<^verbatim>\<open>Math.PI\<close>, the double nearest to \<open>\<pi>\<close>.\<close>

definition Math_PI :: real where
  "Math_PI = 884279719003555 / 2 ^ 48"

text \<open>
  The functions of the script on doubles: every arithmetic operation rounds its exact
  result, and \<^verbatim>\<open>Math.sin\<close>, \<^verbatim>\<open>Math.cos\<close>, \<^verbatim>\<open>Math.sqrt\<close>, \<^verbatim>\<open>Math.atan2\<close> and \<^verbatim>\<open>** 2\<close>
  return the double nearest to the exact value. The coordinates are doubles.
\<close>

definition toRad_double :: "real \<Rightarrow> real" where
  "toRad_double deg = double (double (deg * Math_PI) / 180)"

definition haversine_double :: "latlng \<Rightarrow> latlng \<Rightarrow> real" where
  "haversine_double a b =
     (let dLat = toRad_double (double (fst b - fst a));
          dLon = toRad_double (double (snd b - snd a));
          lat1 = toRad_double (fst a);
          lat2 = toRad_double (fst b)
      in double (double ((double (sin (double (dLat / 2))))\<^sup>2)
           + double (double (double (cos lat1) * double (cos lat2))
               * double ((double (sin (double (dLon / 2))))\<^sup>2))))"

text \<open>\<^verbatim>\<open>Math.sqrt\<close> of a negative number is \<open>NaN\<close>.\<close>

definition sqrt_double :: "real \<Rightarrow> js_number" where
  "sqrt_double x = (if x < 0 then NaN else Num (double (sqrt x)))"

text \<open>An operation on \<open>NaN\<close> is \<open>NaN\<close>.\<close>

definition distanceKm_double :: "latlng \<Rightarrow> latlng \<Rightarrow> js_number" where
  "distanceKm_double a b =
     (let R = 6371;
          x = haversine_double a b
      in case sqrt_double x of
           NaN \<Rightarrow> NaN
         | Num y \<Rightarrow>
             (case sqrt_double (double (1 - x)) of
                NaN \<Rightarrow> NaN
              | Num z \<Rightarrow> Num (double (R * double (2 * double (atan2 y z))))))"

text \<open>\<^verbatim>\<open>==\<close> on numbers: \<open>NaN\<close> equals nothing, itself included.\<close>

fun js_eq :: "js_number \<Rightarrow> js_number \<Rightarrow> bool" where
  "js_eq (Num x) (Num y) = (x = y)"
| "js_eq NaN y = False"
| "js_eq (Num x) NaN = False"

subsection \<open>Traffic prediction\<close>

datatype traffic_level = Low | Medium | High

text \<open>
  The bias table is an object literal, and \<^verbatim>\<open>table[accidentKey]\<close> is an ordinary
  property read: a key the literal does not own is looked up in \<open>Object.prototype\<close>.
  The names below are the properties every object inherits from it; reading one of them
  yields a function (or, for \<open>__proto__\<close>, the prototype object), never
  \<open>undefined\<close>, so the \<^verbatim>\<open>?? 1\<close> default does not apply to them.
\<close>

datatype js_value = JSNumber int | JSObject | JSString

definition OBJECT_PROTOTYPE_KEYS :: "string list" where
  "OBJECT_PROTOTYPE_KEYS =
     [''constructor'', ''toString'', ''toLocaleString'', ''valueOf'', ''hasOwnProperty'',
      ''isPrototypeOf'', ''propertyIsEnumerable'', ''__proto__'', ''__defineGetter__'',
      ''__defineSetter__'', ''__lookupGetter__'', ''__lookupSetter__'']"

definition BIAS_TABLE :: "(string \<times> int) list" where
  "BIAS_TABLE = [(''guindy'', 1), (''tnagar'', 2), (''egmore'', 2), (''central'', 3)]"

text \<open>\<^verbatim>\<open>table[key] ?? 1\<close>: own property, inherited property, or the default.\<close>

definition biasOf :: "string \<Rightarrow> js_value" where
  "biasOf accidentKey =
     (case map_of BIAS_TABLE accidentKey of
        Some w \<Rightarrow> JSNumber w
      | None \<Rightarrow> if accidentKey \<in> set OBJECT_PROTOTYPE_KEYS then JSObject else JSNumber 1)"

text \<open>
  \<^verbatim>\<open>number + value\<close>: a sum of numbers, or the concatenation of the number with the
  text of a function or object, a string that is not a numeral. \<^verbatim>\<open>score >= n\<close>
  converts such a string to \<open>NaN\<close> and is false.
\<close>

fun js_plus :: "int \<Rightarrow> js_value \<Rightarrow> js_value" where
  "js_plus n (JSNumber m) = JSNumber (n + m)"
| "js_plus n JSObject = JSString"
| "js_plus n JSString = JSString"

fun js_ge :: "js_value \<Rightarrow> int \<Rightarrow> bool" where
  "js_ge (JSNumber m) n = (n \<le> m)"
| "js_ge JSObject n = False"
| "js_ge JSString n = False"

text \<open>The hour of \<^verbatim>\<open>new Date().getHours()\<close> is a parameter.\<close>

definition predictTrafficLevel :: "string \<Rightarrow> int \<Rightarrow> traffic_level" where
  "predictTrafficLevel accidentKey hour =
     (let peak = ((8 \<le> hour \<and> hour \<le> 10) \<or> (17 \<le> hour \<and> hour \<le> 19));
          bias = biasOf accidentKey;
          score = js_plus (if peak then 2 else 0) bias
      in if js_ge score 4 then High
         else if js_ge score 3 then Medium
         else Low)"

text \<open>
  The rule as the specification words it: a fixed weight per key, 1 for every other key.
\<close>

definition spec_predictTrafficLevel :: "string \<Rightarrow> int \<Rightarrow> traffic_level" where
  "spec_predictTrafficLevel accidentKey hour =
     (let peak = ((8 \<le> hour \<and> hour \<le> 10) \<or> (17 \<le> hour \<and> hour \<le> 19));
          bias = (case map_of BIAS_TABLE accidentKey of Some w \<Rightarrow> w | None \<Rightarrow> 1);
          score = (if peak then 2 else 0) + bias
      in if 4 \<le> score then High else if 3 \<le> score then Medium else Low)"

subsection \<open>The route catalog and its ranking\<close>

datatype route_id = fastest | alternative | shortest

text \<open>The two dashes of the script's texts, as their UTF-8 bytes.\<close>

definition EN_DASH :: string where
  "EN_DASH = [CHR 0xE2, CHR 0x80, CHR 0x93]"

definition EM_DASH :: string where
  "EM_DASH = [CHR 0xE2, CHR 0x80, CHR 0x94]"

record route =
  rid :: route_id
  name :: string
  tag :: string
  baseTraffic :: traffic_level
  coords :: "latlng list"

definition ROUTES :: "route_id \<Rightarrow> route" where
  "ROUTES r =
     (case r of
        fastest \<Rightarrow>
          \<lparr>rid = fastest, name = ''Fastest Route'', tag = ''Recommended '' @ EN_DASH @ '' Low Traffic'',
           baseTraffic = Low,
           coords = [(10.9488, 78.0690), (10.9526, 78.0718), (10.9562, 78.0742),
                     (10.9591, 78.0762), (10.9622, 78.0783), (10.9652, 78.0810),
                     (10.9680, 78.0840), (10.9712, 78.0873)]\<rparr>
      | alternative \<Rightarrow>
          \<lparr>rid = alternative, name = ''Alternative Route'', tag = ''Medium Traffic'',
           baseTraffic = Medium,
           coords = [(10.9488, 78.0690), (10.9504, 78.0750), (10.9536, 78.0812),
                     (10.9578, 78.0860), (10.9630, 78.0892), (10.9686, 78.0903),
                     (10.9712, 78.0873)]\<rparr>
      | shortest \<Rightarrow>
          \<lparr>rid = shortest, name = ''Shortest Distance Route'', tag = ''High Traffic'',
           baseTraffic = High,
           coords = [(10.9488, 78.0690), (10.9548, 78.0736), (10.9606, 78.0780),
                     (10.9662, 78.0827), (10.9712, 78.0873)]\<rparr>)"

definition estimatedTimeMinutes :: "real \<Rightarrow> traffic_level \<Rightarrow> real" where
  "estimatedTimeMinutes km trafficLevel =
     (let baseSpeed = 35;
          baseMinutes = (km / baseSpeed) * 60;
          mult = (if trafficLevel = Low then 1.0
                  else if trafficLevel = Medium then 1.25 else 1.55)
      in baseMinutes * mult)"

definition adjust :: "traffic_level \<Rightarrow> traffic_level \<Rightarrow> traffic_level" where
  "adjust predictedTraffic base =
     (if predictedTraffic = High \<and> base = Low then Medium
      else if predictedTraffic = High \<and> base = Medium then High
      else if predictedTraffic = Low \<and> base = High then Medium
      else base)"

text \<open>A route card is the route with three more fields (\<^verbatim>\<open>{ ...r, distance, traffic, timeMin }\<close>).\<close>

record route_card = route +
  distance :: real
  traffic :: traffic_level
  timeMin :: real

definition routeCard :: "traffic_level \<Rightarrow> route \<Rightarrow> route_card" where
  "routeCard predictedTraffic r =
     (let km = polylineDistanceKm (coords r);
          tr = adjust predictedTraffic (baseTraffic r);
          tm = estimatedTimeMinutes km tr
      in route.extend r (route_card.fields km tr tm))"

definition tRank :: "traffic_level \<Rightarrow> real" where
  "tRank x = (if x = Low then 1 else if x = Medium then 2 else 3)"

definition compareCards :: "route_card \<Rightarrow> route_card \<Rightarrow> real" where
  "compareCards a b =
     (let diff = tRank (traffic a) - tRank (traffic b)
      in if diff \<noteq> 0 then diff else timeMin a - timeMin b)"

text \<open>
  \<^verbatim>\<open>Array.prototype.sort\<close> with a comparator is a stable sort: an element goes in
  front of the first later element it does not compare greater than.
\<close>

fun insert_by :: "('a \<Rightarrow> 'a \<Rightarrow> real) \<Rightarrow> 'a \<Rightarrow> 'a list \<Rightarrow> 'a list" where
  "insert_by cmp x [] = [x]"
| "insert_by cmp x (y # ys) =
     (if cmp x y \<le> 0 then x # y # ys else y # insert_by cmp x ys)"

definition sort_by :: "('a \<Rightarrow> 'a \<Rightarrow> real) \<Rightarrow> 'a list \<Rightarrow> 'a list" where
  "sort_by cmp xs = foldr (insert_by cmp) xs []"

definition routeList :: "traffic_level \<Rightarrow> route_card list" where
  "routeList predictedTraffic =
     map (routeCard predictedTraffic) [ROUTES fastest, ROUTES alternative, ROUTES shortest]"

definition rankedRoutes :: "traffic_level \<Rightarrow> route_card list" where
  "rankedRoutes predictedTraffic = sort_by compareCards (routeList predictedTraffic)"

subsection \<open>Signals and the state of the simulation\<close>

definition SIGNAL_DEFS :: "(string \<times> latlng) list" where
  "SIGNAL_DEFS =
     [(''S1'', (10.9558, 78.0748)), (''S2'', (10.9639, 78.0795)), (''S3'', (10.9696, 78.0856))]"

datatype signal_state = NORMAL | OVERRIDE

text \<open>\<^verbatim>\<open>minDistance\<close> starts as \<open>Infinity\<close> and holds a distance from then on.\<close>

datatype min_distance = Infinity | Km real

fun min_le :: "min_distance \<Rightarrow> real \<Rightarrow> bool" where
  "min_le Infinity x = False"
| "min_le (Km m) x = (m \<le> x)"

text \<open>\<^verbatim>\<open>d < minDistance\<close> and \<^verbatim>\<open>d > minDistance + c\<close>.\<close>

fun less_min :: "real \<Rightarrow> min_distance \<Rightarrow> bool" where
  "less_min d Infinity = True"
| "less_min d (Km m) = (d < m)"

fun exceeds_min :: "real \<Rightarrow> min_distance \<Rightarrow> real \<Rightarrow> bool" where
  "exceeds_min d Infinity c = False"
| "exceeds_min d (Km m) c = (m + c < d)"

record signal =
  sid :: string
  location :: latlng
  state :: signal_state
  nearestIndex :: "nat option"
  minDistance :: min_distance
  lastDistance :: "real option"
  advanceTriggered :: bool
  overrideActive :: bool
  passed :: bool

datatype line_style = Blue | Green

text \<open>
  The lines of the event log. \<open>render\<close> gives the text the script writes after the
  time stamp.
\<close>

datatype event =
    EvAdvance string
  | EvOverrideOn string
  | EvCrossed string
  | EvDriveStarted
  | EvSelectedRoute string
  | EvSystemReset

fun render :: "event \<Rightarrow> string" where
  "render (EvAdvance i) = i @ '': 3 km detection triggered. Preparing signal override.''"
| "render (EvOverrideOn i) = i @ '': Signal override ON (Green for Ambulance).''"
| "render (EvCrossed i) = i @ '': Ambulance crossed signal. Override OFF, normal resumed.''"
| "render EvDriveStarted = ''Emergency drive started.''"
| "render (EvSelectedRoute n) = ''Selected route: '' @ n"
| "render EvSystemReset = ''System reset. Ready.''"

text \<open>
  The variables of the script, and the texts of the page its functions write.
  \<open>driveTimer\<close> is true while an interval timer is set; \<open>selectedRouteLine\<close> is the
  style of the polyline, if one is drawn; \<open>distanceUI = None\<close> is the text shown for
  \<open>NaN\<close>; \<open>alerts\<close> are the prompts shown, newest first.
\<close>

record sim =
  selectedRouteId :: "route_id option"
  selectedRouteLine :: "line_style option"
  emergencyMode :: bool
  isDriving :: bool
  driveTimer :: bool
  currentIndex :: nat
  segmentProgress :: real
  signalRuntime :: "signal list"
  currentSignalState :: signal_state
  ambulancePos :: latlng
  advanceDetectionUI :: bool
  autoControlUI :: bool
  distanceUI :: "real option"
  signalIdUI :: string
  signalModeUI :: signal_state
  eventLog :: "event list"
  alerts :: "string list"

definition CITY_CENTER :: latlng where
  "CITY_CENTER = (10.9601, 78.0766)"

definition TICK_MS :: real where "TICK_MS = 200"
definition SEGMENT_TIME_MS :: real where "SEGMENT_TIME_MS = 4200"
definition STEP :: real where "STEP = TICK_MS / SEGMENT_TIME_MS"

definition ADVANCE_DETECTION_KM :: real where "ADVANCE_DETECTION_KM = 3.0"
definition OVERRIDE_START_KM :: real where "OVERRIDE_START_KM = 0.40"
definition OVERRIDE_END_KM :: real where "OVERRIDE_END_KM = 0.15"

text \<open>The state the declarations of the script build, before its last lines run.\<close>

definition initialSignal :: "string \<times> latlng \<Rightarrow> signal" where
  "initialSignal s =
     \<lparr>sid = fst s, location = snd s, state = NORMAL, nearestIndex = None,
      minDistance = Infinity, lastDistance = None, advanceTriggered = False,
      overrideActive = False, passed = False\<rparr>"

definition loadedState :: sim where
  "loadedState =
     \<lparr>selectedRouteId = None, selectedRouteLine = None, emergencyMode = False,
      isDriving = False, driveTimer = False, currentIndex = 0, segmentProgress = 0,
      signalRuntime = map initialSignal SIGNAL_DEFS, currentSignalState = NORMAL,
      ambulancePos = CITY_CENTER, advanceDetectionUI = False, autoControlUI = False,
      distanceUI = None, signalIdUI = EM_DASH, signalModeUI = NORMAL, eventLog = [],
      alerts = []\<rparr>"

text \<open>A signal object is shared by reference: a function that is handed a signal is
  handed its position \<open>k\<close> in \<open>signalRuntime\<close> and updates it there.\<close>

definition upd_signal :: "nat \<Rightarrow> (signal \<Rightarrow> signal) \<Rightarrow> sim \<Rightarrow> sim" where
  "upd_signal k f s = s\<lparr>signalRuntime := (signalRuntime s)[k := f (signalRuntime s ! k)]\<rparr>"

definition setSignalStateFor :: "nat \<Rightarrow> signal_state \<Rightarrow> sim \<Rightarrow> sim" where
  "setSignalStateFor k st s =
     (upd_signal k (\<lambda>sg. sg\<lparr>state := st\<rparr>) s)
       \<lparr>currentSignalState := st, signalIdUI := sid (signalRuntime s ! k), signalModeUI := st\<rparr>"

definition setAllSignalsNormal :: "sim \<Rightarrow> sim" where
  "setAllSignalsNormal s =
     s\<lparr>signalRuntime :=
         map (\<lambda>sg. sg\<lparr>state := NORMAL, advanceTriggered := False, overrideActive := False,
                      passed := False, minDistance := Infinity, lastDistance := None,
                      nearestIndex := None\<rparr>)
           (signalRuntime s),
       signalIdUI := EM_DASH, signalModeUI := NORMAL\<rparr>"

definition setRouteHighlight :: "bool \<Rightarrow> sim \<Rightarrow> sim" where
  "setRouteHighlight on s =
     (case selectedRouteLine s of
        None \<Rightarrow> s
      | Some _ \<Rightarrow> s\<lparr>selectedRouteLine := Some (if on then Green else Blue)\<rparr>)"

definition setSelectedRoute :: "route_id \<Rightarrow> sim \<Rightarrow> sim" where
  "setSelectedRoute routeId s =
     (let r = ROUTES routeId
      in setRouteHighlight False
           (s\<lparr>selectedRouteId := Some routeId, selectedRouteLine := Some Blue,
              ambulancePos := coords r ! 0\<rparr>))"

definition logEvent :: "event \<Rightarrow> sim \<Rightarrow> sim" where
  "logEvent message s = s\<lparr>eventLog := message # eventLog s\<rparr>"

definition clearLog :: "sim \<Rightarrow> sim" where
  "clearLog s = s\<lparr>eventLog := []\<rparr>"

text \<open>\<^verbatim>\<open>buildRouteCards\<close>: the cards are ranked and the first one is selected.\<close>

definition buildRouteCards :: "traffic_level \<Rightarrow> sim \<Rightarrow> sim" where
  "buildRouteCards predictedTraffic s =
     (let ranked = rankedRoutes predictedTraffic;
          recommendedId = rid (ranked ! 0)
      in setSelectedRoute recommendedId s)"

definition setEmergencyMode :: "bool \<Rightarrow> sim \<Rightarrow> sim" where
  "setEmergencyMode on s = s\<lparr>emergencyMode := on\<rparr>"

definition setAdvanceDetection :: "bool \<Rightarrow> sim \<Rightarrow> sim" where
  "setAdvanceDetection active s = s\<lparr>advanceDetectionUI := active\<rparr>"

definition setDistanceUI :: "real option \<Rightarrow> sim \<Rightarrow> sim" where
  "setDistanceUI km s = s\<lparr>distanceUI := km\<rparr>"

definition setAutoControl :: "bool \<Rightarrow> sim \<Rightarrow> sim" where
  "setAutoControl on s = s\<lparr>autoControlUI := on\<rparr>"

definition stopDriveTimer :: "sim \<Rightarrow> sim" where
  "stopDriveTimer s = (if driveTimer s then s\<lparr>driveTimer := False\<rparr> else s)"

definition resetDriveState :: "sim \<Rightarrow> sim" where
  "resetDriveState s =
     (let s1 = (stopDriveTimer s)\<lparr>isDriving := False, currentIndex := 0, segmentProgress := 0\<rparr>;
          s2 = setAutoControl False (setDistanceUI None (setAdvanceDetection False
                 (setAllSignalsNormal s1)))
      in s2\<lparr>signalIdUI := EM_DASH, signalModeUI := NORMAL\<rparr>)"

subsection \<open>The three handlers of the tracked signal\<close>

definition handleAdvanceDetectionFor :: "nat \<Rightarrow> real \<Rightarrow> sim \<Rightarrow> sim" where
  "handleAdvanceDetectionFor k distanceToSignalKm s =
     (let sg = signalRuntime s ! k
      in if advanceTriggered sg then s
         else if distanceToSignalKm \<le> ADVANCE_DETECTION_KM then
           logEvent (EvAdvance (sid sg))
             (setRouteHighlight True (setAutoControl True (setAdvanceDetection True
                (upd_signal k (\<lambda>g. g\<lparr>advanceTriggered := True\<rparr>) s))))
         else s)"

definition handleSignalOverrideFor :: "nat \<Rightarrow> real \<Rightarrow> sim \<Rightarrow> sim" where
  "handleSignalOverrideFor k distanceToSignalKm s =
     (let sg = signalRuntime s ! k
      in if \<not> overrideActive sg \<and> distanceToSignalKm \<le> OVERRIDE_START_KM then
           logEvent (EvOverrideOn (sid sg))
             (setSignalStateFor k OVERRIDE (upd_signal k (\<lambda>g. g\<lparr>overrideActive := True\<rparr>) s))
         else s)"

text \<open>
  The seven statements both crossing branches of \<^verbatim>\<open>handleAfterCrossingFor\<close> run:
  the signal is passed, its override is off and its mode is normal again.
\<close>

definition markCrossed :: "nat \<Rightarrow> sim \<Rightarrow> sim" where
  "markCrossed k s =
     logEvent (EvCrossed (sid (signalRuntime s ! k)))
       (setRouteHighlight False (setAdvanceDetection False (setAutoControl False
          (setSignalStateFor k NORMAL
             (upd_signal k (\<lambda>g. g\<lparr>passed := True, overrideActive := False\<rparr>) s)))))"

definition passedIndex :: "signal \<Rightarrow> sim \<Rightarrow> bool" where
  "passedIndex sg s =
     (case nearestIndex sg of
        Some n \<Rightarrow> currentIndex s > n \<or> (currentIndex s = n \<and> segmentProgress s \<ge> 0.6)
      | None \<Rightarrow> False)"

definition handleAfterCrossingFor :: "nat \<Rightarrow> real \<Rightarrow> sim \<Rightarrow> sim" where
  "handleAfterCrossingFor k distanceToSignalKm s =
     (let sg = signalRuntime s ! k
      in if passed sg then s
         else case lastDistance sg of
           None \<Rightarrow> upd_signal k (\<lambda>g. g\<lparr>lastDistance := Some distanceToSignalKm\<rparr>) s
         | Some lastD \<Rightarrow>
             let closeEnough = min_le (minDistance sg) OVERRIDE_START_KM;
                 movingAwayFromMin = exceeds_min distanceToSignalKm (minDistance sg) 0.03
             in if overrideActive sg \<and> closeEnough \<and> (movingAwayFromMin \<or> passedIndex sg s) then
                  upd_signal k (\<lambda>g. g\<lparr>lastDistance := Some distanceToSignalKm\<rparr>) (markCrossed k s)
                else
                  let gotClose = (lastD \<le> OVERRIDE_START_KM);
                      movingAway = (distanceToSignalKm > lastD);
                      s1 = (if overrideActive sg \<and> gotClose \<and> movingAway
                               \<and> distanceToSignalKm \<ge> OVERRIDE_END_KM
                            then markCrossed k s else s)
                  in upd_signal k (\<lambda>g. g\<lparr>lastDistance := Some distanceToSignalKm\<rparr>) s1)"

subsection \<open>Choosing the signal and the tick\<close>

text \<open>
  The candidates of \<^verbatim>\<open>getNextSignal\<close>: the positions of the signals that are not
  passed and have a nearest index, each with that index, sorted by it.
\<close>

definition candidates :: "sim \<Rightarrow> (nat \<times> nat) list" where
  "candidates s =
     sort_by (\<lambda>a b. real (snd a) - real (snd b))
       (List.map_filter
          (\<lambda>k. case nearestIndex (signalRuntime s ! k) of
                  Some n \<Rightarrow> if \<not> passed (signalRuntime s ! k) then Some (k, n) else None
                | None \<Rightarrow> None)
          [0 ..< length (signalRuntime s)])"

definition getNextSignal :: "sim \<Rightarrow> nat option" where
  "getNextSignal s =
     (let cands = candidates s
      in case find (\<lambda>c. currentIndex s \<le> snd c + 1) cands of
           Some c \<Rightarrow> Some (fst c)
         | None \<Rightarrow> if cands \<noteq> [] then Some (fst (last cands)) else None)"

text \<open>The position update of \<^verbatim>\<open>driveTick\<close>: \<open>a\<close> and \<open>b\<close> are read before the index moves.\<close>

definition stepPosition :: "latlng list \<Rightarrow> sim \<Rightarrow> sim" where
  "stepPosition cs s =
     (let a = cs ! currentIndex s;
          b = cs ! (currentIndex s + 1);
          p = segmentProgress s + STEP;
          s1 = (if p \<ge> 1 then s\<lparr>currentIndex := currentIndex s + 1, segmentProgress := 0\<rparr>
                else s\<lparr>segmentProgress := p\<rparr>);
          pos = interpolatePoint a b (segmentProgress s1)
      in s1\<lparr>ambulancePos := pos\<rparr>)"

text \<open>The rest of the tick, for the signal \<^verbatim>\<open>getNextSignal\<close> returned.\<close>

definition trackSignal :: "nat \<Rightarrow> sim \<Rightarrow> sim" where
  "trackSignal k s =
     (let nextSignal = signalRuntime s ! k;
          distKm = distanceKm (ambulancePos s) (location nextSignal);
          s1 = (if less_min distKm (minDistance nextSignal)
                then upd_signal k (\<lambda>g. g\<lparr>minDistance := Km distKm\<rparr>) s else s);
          s2 = (setDistanceUI (Some distKm) s1)
                 \<lparr>signalIdUI := sid nextSignal, signalModeUI := state nextSignal\<rparr>
      in handleAfterCrossingFor k distKm
           (handleSignalOverrideFor k distKm (handleAdvanceDetectionFor k distKm s2)))"

definition driveTick :: "sim \<Rightarrow> sim" where
  "driveTick s =
     (case selectedRouteId s of
        None \<Rightarrow> s
      | Some routeId \<Rightarrow>
          if \<not> isDriving s then s
          else
            let cs = coords (ROUTES routeId)
            in if currentIndex s \<ge> length cs - 1 then (stopDriveTimer s)\<lparr>isDriving := False\<rparr>
               else
                 let s1 = stepPosition cs s
                 in (case getNextSignal s1 of
                       None \<Rightarrow> (setDistanceUI None s1)\<lparr>signalIdUI := EM_DASH, signalModeUI := NORMAL\<rparr>
                     | Some k \<Rightarrow> trackSignal k s1))"

text \<open>The interval timer calls \<^verbatim>\<open>driveTick\<close> while it is set.\<close>

definition timerFires :: "sim \<Rightarrow> sim" where
  "timerFires s = (if driveTimer s then driveTick s else s)"

fun ticks :: "nat \<Rightarrow> sim \<Rightarrow> sim" where
  "ticks 0 s = s"
| "ticks (Suc n) s = ticks n (driveTick s)"

subsection \<open>Starting and resetting\<close>

text \<open>The loop of \<^verbatim>\<open>startEmergencyDrive\<close> that finds the waypoint nearest to a signal.\<close>

definition nearestWaypoint :: "latlng list \<Rightarrow> latlng \<Rightarrow> nat" where
  "nearestWaypoint cs loc =
     snd (fold (\<lambda>i (best, bestIdx).
                  let d = distanceKm (cs ! i) loc
                  in if less_min d best then (Km d, i) else (best, bestIdx))
            [0 ..< length cs] (Infinity, 0))"

definition START_PROMPT :: string where
  "START_PROMPT = ''First click \"Suggest Low Traffic Route\" and select a route.''"

definition startEmergencyDrive :: "sim \<Rightarrow> sim" where
  "startEmergencyDrive s =
     (case selectedRouteId s of
        None \<Rightarrow> s\<lparr>alerts := START_PROMPT # alerts s\<rparr>
      | Some routeId \<Rightarrow>
          if isDriving s then s
          else
            let s1 = (resetDriveState (setEmergencyMode True s))\<lparr>isDriving := True\<rparr>;
                r = ROUTES routeId;
                s2 = s1\<lparr>ambulancePos := coords r ! 0\<rparr>;
                s3 = s2\<lparr>signalRuntime :=
                          map (\<lambda>g. g\<lparr>nearestIndex := Some (nearestWaypoint (coords r) (location g)),
                                      minDistance := Infinity, lastDistance := None,
                                      advanceTriggered := False, overrideActive := False,
                                      passed := False, state := NORMAL\<rparr>)
                            (signalRuntime s2)\<rparr>;
                s4 = logEvent (EvSelectedRoute (name r)) (logEvent EvDriveStarted (clearLog s3))
            in s4\<lparr>driveTimer := True\<rparr>)"

text \<open>The click handlers of the two other buttons.\<close>

definition suggestClicked :: "string \<Rightarrow> int \<Rightarrow> sim \<Rightarrow> sim" where
  "suggestClicked accidentKey hour s = buildRouteCards (predictTrafficLevel accidentKey hour) s"

definition resetClicked :: "sim \<Rightarrow> sim" where
  "resetClicked s =
     (let s1 = logEvent EvSystemReset (clearLog (setEmergencyMode False (resetDriveState s)))
      in s1\<lparr>selectedRouteId := None, selectedRouteLine := None, ambulancePos := CITY_CENTER\<rparr>)"

subsection \<open>Notions the properties are stated with\<close>

text \<open>One step of the loop in \<open>nearestWaypoint\<close>, named.\<close>

definition nearestStep ::
  "latlng list \<Rightarrow> latlng \<Rightarrow> nat \<Rightarrow> min_distance \<times> nat \<Rightarrow> min_distance \<times> nat" where
  "nearestStep cs loc i acc =
     (case acc of (best, bestIdx) \<Rightarrow>
        let d = distanceKm (cs ! i) loc
        in if less_min d best then (Km d, i) else (best, bestIdx))"

text \<open>
  The drive session: the selected route, the running flag, the waypoint index, the
  progress in the segment and the position shown. \<open>sessionTick\<close> is what
  \<^verbatim>\<open>driveTick\<close> does to these five alone (its lines up to the marker update).
\<close>

type_synonym session = "route_id option \<times> bool \<times> nat \<times> real \<times> latlng"

definition session :: "sim \<Rightarrow> session" where
  "session s = (selectedRouteId s, isDriving s, currentIndex s, segmentProgress s, ambulancePos s)"

fun sessionTick :: "session \<Rightarrow> session" where
  "sessionTick (None, drv, i, p, pos) = (None, drv, i, p, pos)"
| "sessionTick (Some r, drv, i, p, pos) =
     (if \<not> drv then (Some r, drv, i, p, pos)
      else if i \<ge> length (coords (ROUTES r)) - 1 then (Some r, False, i, p, pos)
      else if p + STEP \<ge> 1
        then (Some r, True, i + 1, 0,
              interpolatePoint (coords (ROUTES r) ! i) (coords (ROUTES r) ! (i + 1)) 0)
        else (Some r, True, i, p + STEP,
              interpolatePoint (coords (ROUTES r) ! i) (coords (ROUTES r) ! (i + 1)) (p + STEP)))"

text \<open>
  The invariant of the drive session: the progress is in \<open>[0, 1)\<close> and the waypoint
  index is an index of the selected route's waypoint list.
\<close>

definition drive_inv :: "sim \<Rightarrow> bool" where
  "drive_inv s =
     (0 \<le> segmentProgress s \<and> segmentProgress s < 1
      \<and> (case selectedRouteId s of
            None \<Rightarrow> True
          | Some r \<Rightarrow> currentIndex s \<le> length (coords (ROUTES r)) - 1))"

text \<open>
  The selection as the specification words it: the first candidate, in the order of the
  nearest indices, whose nearest index is at or ahead of the current waypoint index; the
  last candidate if all are behind; none if there is no candidate.
\<close>

definition spec_getNextSignal :: "sim \<Rightarrow> nat option" where
  "spec_getNextSignal s =
     (let cands = candidates s
      in case find (\<lambda>c. currentIndex s \<le> snd c) cands of
           Some c \<Rightarrow> Some (fst c)
         | None \<Rightarrow> if cands \<noteq> [] then Some (fst (last cands)) else None)"

text \<open>
  A signal whose override is on has a last distance on record. Every function that turns
  an override on is followed, in the same tick, by the one that records the distance.
\<close>

definition override_recorded :: "sim \<Rightarrow> bool" where
  "override_recorded s =
     list_all (\<lambda>g. \<not> overrideActive g \<or> lastDistance g \<noteq> None) (signalRuntime s)"

text \<open>
  The log holds the advance-detection line of a signal once if the signal's flag is set,
  and not at all otherwise; signal ids are distinct.
\<close>

definition advance_logged :: "sim \<Rightarrow> bool" where
  "advance_logged s =
     (distinct (map sid (signalRuntime s))
      \<and> list_all (\<lambda>g. count_list (eventLog s) (EvAdvance (sid g))
                        = (if advanceTriggered g then 1 else 0)) (signalRuntime s))"

text \<open>
  What the tick does to the tracked signal itself, handler by handler: the assignments to
  the signal's fields in the update of \<open>minDistance\<close> and in the three handlers, in
  their order. \<open>signalTick\<close> is their composition.
\<close>

definition minSig :: "real \<Rightarrow> signal \<Rightarrow> signal" where
  "minSig d g = (if less_min d (minDistance g) then g\<lparr>minDistance := Km d\<rparr> else g)"

definition advanceSig :: "real \<Rightarrow> signal \<Rightarrow> signal" where
  "advanceSig d g =
     (if advanceTriggered g then g
      else if d \<le> ADVANCE_DETECTION_KM then g\<lparr>advanceTriggered := True\<rparr> else g)"

definition overrideSig :: "real \<Rightarrow> signal \<Rightarrow> signal" where
  "overrideSig d g =
     (if \<not> overrideActive g \<and> d \<le> OVERRIDE_START_KM
      then g\<lparr>overrideActive := True, state := OVERRIDE\<rparr> else g)"

definition crossingFires :: "sim \<Rightarrow> real \<Rightarrow> signal \<Rightarrow> bool" where
  "crossingFires s d g =
     (\<not> passed g \<and> overrideActive g
      \<and> (case lastDistance g of
            None \<Rightarrow> False
          | Some lastD \<Rightarrow>
              (min_le (minDistance g) OVERRIDE_START_KM
                 \<and> (exceeds_min d (minDistance g) 0.03 \<or> passedIndex g s))
              \<or> (lastD \<le> OVERRIDE_START_KM \<and> d > lastD \<and> d \<ge> OVERRIDE_END_KM)))"

definition crossingSig :: "sim \<Rightarrow> real \<Rightarrow> signal \<Rightarrow> signal" where
  "crossingSig s d g =
     (if passed g then g
      else if crossingFires s d g
        then g\<lparr>passed := True, overrideActive := False, state := NORMAL, lastDistance := Some d\<rparr>
        else g\<lparr>lastDistance := Some d\<rparr>)"

definition signalTick :: "sim \<Rightarrow> real \<Rightarrow> signal \<Rightarrow> signal" where
  "signalTick s d g = crossingSig s d (overrideSig d (advanceSig d (minSig d g)))"


text \<open>
  A candidate of \<^verbatim>\<open>getNextSignal\<close>: the position of a signal that is not passed,
  with its nearest index.
\<close>

definition isCandidate :: "sim \<Rightarrow> nat \<times> nat \<Rightarrow> bool" where
  "isCandidate s c =
     (fst c < length (signalRuntime s) \<and> \<not> passed (signalRuntime s ! fst c)
      \<and> nearestIndex (signalRuntime s ! fst c) = Some (snd c))"

subsection \<open>States of a drive, for examples\<close>

text \<open>
  A drive on the shortest route, in its second segment at progress 0.58. S1 (nearest
  index 1) is in override; it came as close as 0.1 km and was last seen at 0.12 km.
\<close>

definition crossingState :: sim where
  "crossingState =
     loadedState
       \<lparr>selectedRouteId := Some shortest, selectedRouteLine := Some Green,
        emergencyMode := True, isDriving := True, driveTimer := True,
        currentIndex := 1, segmentProgress := 0.58,
        ambulancePos := interpolatePoint (10.9548, 78.0736) (10.9606, 78.0780) 0.58,
        signalRuntime :=
          [\<lparr>sid = ''S1'', location = (10.9558, 78.0748), state = OVERRIDE,
            nearestIndex = Some 1, minDistance = Km 0.1, lastDistance = Some 0.12,
            advanceTriggered = True, overrideActive = True, passed = False\<rparr>,
           \<lparr>sid = ''S2'', location = (10.9639, 78.0795), state = NORMAL,
            nearestIndex = Some 2, minDistance = Infinity, lastDistance = None,
            advanceTriggered = False, overrideActive = False, passed = False\<rparr>,
           \<lparr>sid = ''S3'', location = (10.9696, 78.0856), state = NORMAL,
            nearestIndex = Some 4, minDistance = Infinity, lastDistance = None,
            advanceTriggered = False, overrideActive = False, passed = False\<rparr>],
        currentSignalState := OVERRIDE, advanceDetectionUI := True, autoControlUI := True,
        eventLog := [EvOverrideOn ''S1'', EvAdvance ''S1'', EvSelectedRoute ''Shortest Distance Route'',
                     EvDriveStarted]\<rparr>"

text \<open>
  A state of a drive on the fastest route, at waypoint 6. S1 (nearest index 2) is passed;
  S2 (nearest index 5) and S3 (nearest index 6) are not.
\<close>

definition atSixthWaypoint :: sim where
  "atSixthWaypoint =
     loadedState
       \<lparr>selectedRouteId := Some fastest, selectedRouteLine := Some Blue,
        emergencyMode := True, isDriving := True, driveTimer := True,
        currentIndex := 6, segmentProgress := 0,
        ambulancePos := (10.9652, 78.0810),
        signalRuntime :=
          [\<lparr>sid = ''S1'', location = (10.9558, 78.0748), state = NORMAL,
            nearestIndex = Some 2, minDistance = Km 0.05, lastDistance = Some 0.09,
            advanceTriggered = True, overrideActive = False, passed = True\<rparr>,
           \<lparr>sid = ''S2'', location = (10.9639, 78.0795), state = NORMAL,
            nearestIndex = Some 5, minDistance = Infinity, lastDistance = None,
            advanceTriggered = False, overrideActive = False, passed = False\<rparr>,
           \<lparr>sid = ''S3'', location = (10.9696, 78.0856), state = NORMAL,
            nearestIndex = Some 6, minDistance = Infinity, lastDistance = None,
            advanceTriggered = False, overrideActive = False, passed = False\<rparr>],
        eventLog := [EvCrossed ''S1'', EvOverrideOn ''S1'', EvAdvance ''S1'',
                     EvSelectedRoute ''Fastest Route'', EvDriveStarted]\<rparr>"

text \<open>
  The drive of \<open>crossingState\<close> a few ticks later: S1 is passed, S2 (nearest index 2)
  has not been tracked yet.
\<close>

definition afterFirstCrossing :: sim where
  "afterFirstCrossing =
     loadedState
       \<lparr>selectedRouteId := Some shortest, selectedRouteLine := Some Blue,
        emergencyMode := True, isDriving := True, driveTimer := True,
        currentIndex := 1, segmentProgress := 0.7,
        ambulancePos := interpolatePoint (10.9548, 78.0736) (10.9606, 78.0780) 0.7,
        signalRuntime :=
          [\<lparr>sid = ''S1'', location = (10.9558, 78.0748), state = NORMAL,
            nearestIndex = Some 1, minDistance = Km 0.1, lastDistance = Some 0.25,
            advanceTriggered = True, overrideActive = False, passed = True\<rparr>,
           \<lparr>sid = ''S2'', location = (10.9639, 78.0795), state = NORMAL,
            nearestIndex = Some 2, minDistance = Infinity, lastDistance = None,
            advanceTriggered = False, overrideActive = False, passed = False\<rparr>,
           \<lparr>sid = ''S3'', location = (10.9696, 78.0856), state = NORMAL,
            nearestIndex = Some 4, minDistance = Infinity, lastDistance = None,
            advanceTriggered = False, overrideActive = False, passed = False\<rparr>],
        eventLog := [EvCrossed ''S1'', EvOverrideOn ''S1'', EvAdvance ''S1'',
                     EvSelectedRoute ''Shortest Distance Route'', EvDriveStarted]\<rparr>"

text \<open>
  A drive on the alternative route in its third segment. S1 (nearest index 1) was tracked
  from the start and never came within 0.40 km, so it is not passed; S2 (nearest index 3)
  and S3 (nearest index 6) have not been tracked yet.
\<close>

definition alternativeState :: sim where
  "alternativeState =
     loadedState
       \<lparr>selectedRouteId := Some alternative, selectedRouteLine := Some Green,
        emergencyMode := True, isDriving := True, driveTimer := True,
        currentIndex := 2, segmentProgress := 0.3,
        ambulancePos := interpolatePoint (10.9536, 78.0812) (10.9578, 78.0860) 0.3,
        signalRuntime :=
          [\<lparr>sid = ''S1'', location = (10.9558, 78.0748), state = NORMAL,
            nearestIndex = Some 1, minDistance = Km 0.55, lastDistance = Some 0.8,
            advanceTriggered = True, overrideActive = False, passed = False\<rparr>,
           \<lparr>sid = ''S2'', location = (10.9639, 78.0795), state = NORMAL,
            nearestIndex = Some 3, minDistance = Infinity, lastDistance = None,
            advanceTriggered = False, overrideActive = False, passed = False\<rparr>,
           \<lparr>sid = ''S3'', location = (10.9696, 78.0856), state = NORMAL,
            nearestIndex = Some 6, minDistance = Infinity, lastDistance = None,
            advanceTriggered = False, overrideActive = False, passed = False\<rparr>],
        advanceDetectionUI := True, autoControlUI := True,
        eventLog := [EvAdvance ''S1'', EvSelectedRoute ''Alternative Route'', EvDriveStarted]\<rparr>"

text \<open>The drive of the shortest route as the start button leaves it, from the loaded page.\<close>

definition startedShortest :: sim where
  "startedShortest = startEmergencyDrive (setSelectedRoute shortest loadedState)"


section \<open>Properties\<close>

subsection \<open>Geometry\<close>

lemma toRad_neg: "toRad (- x) = - toRad x"
  by (simp add: toRad_def)

lemma toRad_diff_swap: "toRad (u - v) = - toRad (v - u)"
  using toRad_neg [of "v - u"] by simp

lemma sin_half_neg_sq: "(sin (- x / 2))\<^sup>2 = (sin ((x::real) / 2))\<^sup>2"
proof -
  have "- x / 2 = - (x / 2)" by simp
  then show ?thesis by (simp only: sin_minus power2_minus)
qed

lemma haversine_sym: "haversine a b = haversine b a"
proof -
  have 1: "(sin (toRad (fst b - fst a) / 2))\<^sup>2 = (sin (toRad (fst a - fst b) / 2))\<^sup>2"
    using sin_half_neg_sq [of "toRad (fst a - fst b)"]
    by (simp add: toRad_diff_swap [of "fst b" "fst a"])
  have 2: "(sin (toRad (snd b - snd a) / 2))\<^sup>2 = (sin (toRad (snd a - snd b) / 2))\<^sup>2"
    using sin_half_neg_sq [of "toRad (snd a - snd b)"]
    by (simp add: toRad_diff_swap [of "snd b" "snd a"])
  show ?thesis
    unfolding haversine_def Let_def 1 2 by (simp add: mult.commute)
qed

lemma haversine_self: "haversine a a = 0"
  by (simp add: haversine_def toRad_def)

lemma sin_half_sq: "(sin ((u::real) / 2))\<^sup>2 = (1 - cos u) / 2"
  using cos_double_sin [of "u / 2"] by simp

lemma cos_prod: "cos (p::real) * cos q = (cos (p - q) + cos (p + q)) / 2"
  by (simp add: cos_add cos_diff)

text \<open>
  The haversine argument lies between 0 and 1 for all coordinates, so neither square
  root of \<^verbatim>\<open>distanceKm\<close> is ever taken of a negative number.
\<close>

lemma haversine_range: "0 \<le> haversine a b \<and> haversine a b \<le> 1"
proof -
  define A where "A = cos (toRad (fst a) - toRad (fst b))"
  define B where "B = cos (toRad (fst a) + toRad (fst b))"
  define t where "t = (sin (toRad (snd b - snd a) / 2))\<^sup>2"
  have lin: "toRad (fst b - fst a) = toRad (fst b) - toRad (fst a)"
    by (simp add: toRad_def algebra_simps diff_divide_distrib)
  have "cos (toRad (fst b) - toRad (fst a)) = A"
    unfolding A_def using cos_minus [of "toRad (fst a) - toRad (fst b)"] by simp
  then have h: "haversine a b = (1 - A) / 2 + (A + B) / 2 * t"
    by (simp add: haversine_def Let_def lin sin_half_sq cos_prod A_def B_def t_def)
  have t0: "0 \<le> t" and t1: "t \<le> 1"
    by (simp_all add: t_def abs_square_le_1)
  have A1: "A \<le> 1" "- 1 \<le> A" and B1: "B \<le> 1" "- 1 \<le> B"
    by (simp_all add: A_def B_def)
  have e: "haversine a b = (1 - A * (1 - t) + B * t) / 2"
    unfolding h by (simp add: algebra_simps add_divide_distrib diff_divide_distrib)
  have u1: "A * (1 - t) \<le> 1 * (1 - t)" using A1 t1 by (intro mult_right_mono) simp_all
  have u2: "- 1 * (1 - t) \<le> A * (1 - t)" using A1 t1 by (intro mult_right_mono) simp_all
  have v1: "B * t \<le> 1 * t" using B1 t0 by (intro mult_right_mono) simp_all
  have v2: "- 1 * t \<le> B * t" using B1 t0 by (intro mult_right_mono) simp_all
  show ?thesis unfolding e using u1 u2 v1 v2 by simp
qed

text \<open>
  In exact arithmetic the haversine distance (Earth radius 6371 km) is symmetric in its
  two points, and the distance from a point to itself is 0.
\<close>

lemma distanceKm_symmetric_zero:
  "distanceKm a b = distanceKm b a \<and> distanceKm a a = 0"
proof
  show "distanceKm a b = distanceKm b a"
    by (simp add: distanceKm_def haversine_sym [of a b])
  show "distanceKm a a = 0"
    by (simp add: distanceKm_def haversine_self atan2_def)
qed

text \<open>An upper bound on the distance of near points.\<close>

lemma arctan_le_self:
  fixes x :: real
  assumes "0 \<le> x"
  shows "arctan x \<le> x"
proof -
  let ?f = "\<lambda>x. x - arctan x"
  have "\<exists>y. (?f has_real_derivative y) (at u) \<and> 0 \<le> y" for u :: real
  proof -
    have "(?f has_real_derivative (1 - inverse (1 + u\<^sup>2))) (at u)"
      by (auto intro!: derivative_eq_intros)
    moreover have "inverse (1 + u\<^sup>2) \<le> 1"
      by (simp add: inverse_le_1_iff)
    ultimately show ?thesis by (intro exI [of _ "1 - inverse (1 + u\<^sup>2)"]) simp
  qed
  then have "?f 0 \<le> ?f x"
    by (intro DERIV_nonneg_imp_nondecreasing [OF assms]) blast
  then show ?thesis by simp
qed

lemma sin_sq_le: "(sin (t::real))\<^sup>2 \<le> t\<^sup>2"
  using abs_sin_x_le_abs_x [of t] by (simp add: abs_le_square_iff [symmetric])

lemma haversine_le:
  "haversine a b \<le> (toRad (fst b - fst a) / 2)\<^sup>2 + (toRad (snd b - snd a) / 2)\<^sup>2"
proof -
  let ?u = "(sin (toRad (snd b - snd a) / 2))\<^sup>2"
  have c: "cos (toRad (fst a)) * cos (toRad (fst b)) \<le> 1"
    using cos_le_one [of "toRad (fst a)"] cos_le_one [of "toRad (fst b)"]
      cos_ge_minus_one [of "toRad (fst a)"] cos_ge_minus_one [of "toRad (fst b)"]
    by (metis abs_cos_le_one abs_mult abs_le_D1 mult_le_one abs_ge_zero)
  have "cos (toRad (fst a)) * cos (toRad (fst b)) * ?u \<le> 1 * ?u"
    by (intro mult_right_mono c) simp
  then show ?thesis
    unfolding haversine_def Let_def
    using sin_sq_le [of "toRad (fst b - fst a) / 2"] sin_sq_le [of "toRad (snd b - snd a) / 2"]
    by simp
qed

text \<open>Points at most 0.019 degrees apart are at most 3 km apart.\<close>

lemma distanceKm_near:
  assumes "(fst b - fst a)\<^sup>2 + (snd b - snd a)\<^sup>2 \<le> (19 / 1000)\<^sup>2"
  shows "distanceKm a b \<le> 3"
proof -
  let ?x = "haversine a b"
  have p: "(pi / 360)\<^sup>2 \<le> (1 / 90)\<^sup>2"
    using pi_less_4 pi_gt_zero by (intro power_mono) simp_all
  have h: "(toRad u / 2)\<^sup>2 = (pi / 360)\<^sup>2 * u\<^sup>2" for u
    by (simp add: toRad_def power2_eq_square)
  have "(toRad (fst b - fst a) / 2)\<^sup>2 + (toRad (snd b - snd a) / 2)\<^sup>2
      = (pi / 360)\<^sup>2 * ((fst b - fst a)\<^sup>2 + (snd b - snd a)\<^sup>2)"
    by (simp only: h distrib_left)
  also have "\<dots> \<le> (1 / 90)\<^sup>2 * (19 / 1000)\<^sup>2"
    using p assms by (intro mult_mono) simp_all
  finally have x1: "?x \<le> (19 / 90000)\<^sup>2"
    using haversine_le [of a b] by (simp add: power2_eq_square)
  have x0: "0 \<le> ?x" using haversine_range [of a b] by simp
  have s1: "sqrt ?x \<le> 19 / 90000"
    using x1 by (intro real_le_lsqrt) simp_all
  have "(9 / 10)\<^sup>2 \<le> 1 - ?x" using x1 by (simp add: power2_eq_square)
  then have s2: "9 / 10 \<le> sqrt (1 - ?x)"
    by (intro real_le_rsqrt) simp
  have "0 < (9 / 10 :: real)" by simp
  from this s2 have pos: "0 < sqrt (1 - ?x)" by (rule less_le_trans)
  have "sqrt ?x / sqrt (1 - ?x) \<le> (19 / 90000) / (9 / 10)"
    using s1 s2 x0 by (intro frac_le) simp_all
  then have t: "sqrt ?x / sqrt (1 - ?x) \<le> 19 / 81000" by simp
  have t0: "0 \<le> sqrt ?x / sqrt (1 - ?x)" using x0 pos by simp
  have "atan2 (sqrt ?x) (sqrt (1 - ?x)) = arctan (sqrt ?x / sqrt (1 - ?x))"
    using pos by (simp add: atan2_def)
  also have "\<dots> \<le> sqrt ?x / sqrt (1 - ?x)" by (rule arctan_le_self [OF t0])
  also note t
  finally have "atan2 (sqrt ?x) (sqrt (1 - ?x)) \<le> 19 / 81000" .
  then show ?thesis by (simp add: distanceKm_def Let_def)
qed


subsection \<open>The distance in the doubles of the script\<close>

lemma rint_eqI:
  assumes "\<bar>q - of_int m\<bar> < 1 / 2"
  shows "rint q = m"
proof (cases "of_int m \<le> q")
  case True
  with assms have "\<lfloor>q\<rfloor> = m" by (intro floor_unique) auto
  with assms True show ?thesis by (simp add: rint_def)
next
  case False
  with assms have f: "\<lfloor>q\<rfloor> = m - 1" by (intro floor_unique) auto
  from assms False have "1 / 2 < q - of_int (m - 1)" by auto
  with f show ?thesis by (simp add: rint_def)
qed

lemma rint_minus: "rint (- q) = - rint q"
proof (cases "q = of_int \<lfloor>q\<rfloor>")
  case True
  then have "- q = of_int (- \<lfloor>q\<rfloor>)" by simp
  then have "\<lfloor>- q\<rfloor> = - \<lfloor>q\<rfloor>" by (metis floor_of_int)
  with True show ?thesis by (simp add: rint_def)
next
  case False
  have lt: "of_int \<lfloor>q\<rfloor> < q"
    using False of_int_floor_le [of q] by (metis less_le)
  have f: "\<lfloor>- q\<rfloor> = - \<lfloor>q\<rfloor> - 1"
  proof (rule floor_unique)
    show "of_int (- \<lfloor>q\<rfloor> - 1) \<le> - q" by simp linarith
    show "- q < of_int (- \<lfloor>q\<rfloor> - 1) + 1" using lt by simp
  qed
  show ?thesis
    using lt by (auto simp: rint_def f Let_def)
qed

text \<open>Rounding is odd, so \<^verbatim>\<open>toRad\<close> is.\<close>

lemma double_minus: "double (- x) = - double x"
  by (simp add: double_def Let_def rint_minus)

lemma toRad_double_minus: "toRad_double (- deg) = - toRad_double deg"
  by (simp add: toRad_double_def double_minus)

text \<open>
  A real number in the binade of step \<open>u\<close> that is less than half a step from the
  multiple \<open>m * u\<close> is rounded to it.
\<close>

lemma double_eqI:
  fixes e m :: int
  assumes "u = 2 powr of_int e" "- 1074 \<le> e"
    "2 ^ 52 * u \<le> \<bar>x\<bar>" "\<bar>x\<bar> < 2 ^ 53 * u"
    "\<bar>x - of_int m * u\<bar> < u / 2"
  shows "double x = of_int m * u"
proof -
  have u: "0 < u" using assms(1) by simp
  have x: "x \<noteq> 0" "0 < \<bar>x\<bar>" using assms(3) u
    by (auto simp: zero_less_mult_iff dest: less_le_trans [of 0 "2 ^ 52 * u" "\<bar>x\<bar>"])
  have p: "2 powr of_int (e + 52) = 2 ^ 52 * u" "2 powr of_int (e + 52 + 1) = 2 ^ 53 * u"
    by (simp_all add: assms(1) powr_add)
  have "\<lfloor>log 2 \<bar>x\<bar>\<rfloor> = e + 52"
    using floor_log_eq_powr_iff [of "\<bar>x\<bar>" 2 "e + 52"] x(2) assms(3,4) unfolding p by simp
  then have e: "max (\<lfloor>log 2 \<bar>x\<bar>\<rfloor> - 52) (- 1074) = e" using assms(2) by simp
  have "\<bar>x / u - of_int m\<bar> = \<bar>x - of_int m * u\<bar> / u"
    using u by (simp add: field_simps abs_mult [symmetric])
  also have "\<dots> < 1 / 2" using assms(5) u by (simp add: field_simps)
  finally have "rint (x / u) = m" by (rule rint_eqI)
  then show ?thesis using x(1) by (simp add: double_def e assms(1) [symmetric])
qed

lemma double_eqI_neg:
  fixes m :: int and n :: nat
  assumes "n \<le> 1074"
    "2 ^ 52 / 2 ^ n \<le> \<bar>x\<bar>" "\<bar>x\<bar> < 2 ^ 53 / 2 ^ n"
    "\<bar>x - of_int m / 2 ^ n\<bar> < 1 / 2 ^ (n + 1)"
  shows "double x = of_int m / 2 ^ n"
proof -
  have u: "(1 / 2 ^ n :: real) = 2 powr of_int (- int n)"
    by (simp add: powr_minus_divide powr_realpow)
  have "double x = of_int m * (1 / 2 ^ n)"
    using assms by (intro double_eqI [OF u]) simp_all
  then show ?thesis by simp
qed

text \<open>Bounds on the sine and the cosine by their Taylor polynomials.\<close>

lemma remainder_le:
  fixes c f p :: real
  assumes "\<bar>c\<bar> \<le> 1" "0 < f"
  shows "\<bar>c / f * p\<bar> \<le> inverse f * \<bar>p\<bar>"
proof -
  have "\<bar>c / f * p\<bar> = \<bar>c\<bar> * (inverse f * \<bar>p\<bar>)"
    using assms(2) by (simp add: abs_mult divide_inverse)
  also have "\<dots> \<le> 1 * (inverse f * \<bar>p\<bar>)"
    using assms by (intro mult_right_mono) simp_all
  finally show ?thesis by simp
qed

lemma Maclaurin_cos_bound:
  "\<bar>cos x - (\<Sum>m<n. cos_coeff m * x ^ m)\<bar> \<le> inverse (fact n) * \<bar>x\<bar> ^ n"
proof -
  from Maclaurin_cos_expansion [of x n] obtain t where
    c: "cos x = (\<Sum>m<n. cos_coeff m * x ^ m) + (cos (t + 1 / 2 * real n * pi) / fact n) * x ^ n"
    by blast
  have "\<bar>cos (t + 1 / 2 * real n * pi) / fact n * x ^ n\<bar> \<le> inverse (fact n) * \<bar>x ^ n\<bar>"
    by (rule remainder_le) simp_all
  moreover have "cos x - (\<Sum>m<n. cos_coeff m * x ^ m) = cos (t + 1 / 2 * real n * pi) / fact n * x ^ n"
    using c by linarith
  ultimately show ?thesis by (simp only: power_abs)
qed

lemma near_I:
  fixes v s e d :: real
  assumes "s - e < v" "v < s + e" "e \<le> d"
  shows "\<bar>v - s\<bar> < d"
  using assms by linarith

lemma abs_le_D:
  fixes s p e :: real
  assumes "\<bar>s - p\<bar> \<le> e"
  shows "p - e \<le> s" and "s \<le> p + e"
  using assms by linarith+

lemma sin_poly12:
  fixes x :: real
  shows "(\<Sum>m<12. sin_coeff m * x ^ m) =
      x - x ^ 3 / 6 + x ^ 5 / 120 - x ^ 7 / 5040 + x ^ 9 / 362880 - x ^ 11 / 39916800"
  by (simp add: lessThan_nat_numeral lessThan_Suc sin_coeff_def fact_numeral)

lemma sin_bounds12:
  fixes x :: real
  assumes "0 \<le> x"
  shows "x - x ^ 3 / 6 + x ^ 5 / 120 - x ^ 7 / 5040 + x ^ 9 / 362880 - x ^ 11 / 39916800
      - x ^ 12 / 479001600 \<le> sin x"
    and "sin x \<le> x - x ^ 3 / 6 + x ^ 5 / 120 - x ^ 7 / 5040 + x ^ 9 / 362880 - x ^ 11 / 39916800
      + x ^ 12 / 479001600"
proof -
  have "\<bar>sin x - (\<Sum>m<12. sin_coeff m * x ^ m)\<bar> \<le> inverse (fact 12) * \<bar>x\<bar> ^ 12"
    by (rule Maclaurin_sin_bound)
  moreover have "inverse (fact 12) * \<bar>x\<bar> ^ 12 = x ^ 12 / 479001600"
    using assms by (simp add: fact_numeral)
  ultimately have "\<bar>sin x - (x - x ^ 3 / 6 + x ^ 5 / 120 - x ^ 7 / 5040 + x ^ 9 / 362880 - x ^ 11 / 39916800)\<bar>
      \<le> x ^ 12 / 479001600"
    by (simp only: sin_poly12)
  then show "x - x ^ 3 / 6 + x ^ 5 / 120 - x ^ 7 / 5040 + x ^ 9 / 362880 - x ^ 11 / 39916800
      - x ^ 12 / 479001600 \<le> sin x"
    and "sin x \<le> x - x ^ 3 / 6 + x ^ 5 / 120 - x ^ 7 / 5040 + x ^ 9 / 362880 - x ^ 11 / 39916800
      + x ^ 12 / 479001600"
    by (rule abs_le_D)+
qed

lemma cos_poly12:
  fixes x :: real
  shows "(\<Sum>m<12. cos_coeff m * x ^ m) =
      1 - x ^ 2 / 2 + x ^ 4 / 24 - x ^ 6 / 720 + x ^ 8 / 40320 - x ^ 10 / 3628800"
  by (simp add: lessThan_nat_numeral lessThan_Suc cos_coeff_def fact_numeral)

lemma cos_bounds12:
  fixes x :: real
  assumes "0 \<le> x"
  shows "1 - x ^ 2 / 2 + x ^ 4 / 24 - x ^ 6 / 720 + x ^ 8 / 40320 - x ^ 10 / 3628800
      - x ^ 12 / 479001600 \<le> cos x"
    and "cos x \<le> 1 - x ^ 2 / 2 + x ^ 4 / 24 - x ^ 6 / 720 + x ^ 8 / 40320 - x ^ 10 / 3628800
      + x ^ 12 / 479001600"
proof -
  have "\<bar>cos x - (\<Sum>m<12. cos_coeff m * x ^ m)\<bar> \<le> inverse (fact 12) * \<bar>x\<bar> ^ 12"
    by (rule Maclaurin_cos_bound)
  moreover have "inverse (fact 12) * \<bar>x\<bar> ^ 12 = x ^ 12 / 479001600"
    using assms by (simp add: fact_numeral)
  ultimately have "\<bar>cos x - (1 - x ^ 2 / 2 + x ^ 4 / 24 - x ^ 6 / 720 + x ^ 8 / 40320 - x ^ 10 / 3628800)\<bar>
      \<le> x ^ 12 / 479001600"
    by (simp only: cos_poly12)
  then show "1 - x ^ 2 / 2 + x ^ 4 / 24 - x ^ 6 / 720 + x ^ 8 / 40320 - x ^ 10 / 3628800
      - x ^ 12 / 479001600 \<le> cos x"
    and "cos x \<le> 1 - x ^ 2 / 2 + x ^ 4 / 24 - x ^ 6 / 720 + x ^ 8 / 40320 - x ^ 10 / 3628800
      + x ^ 12 / 479001600"
    by (rule abs_le_D)+
qed

lemma sin_poly24:
  fixes x :: real
  shows "(\<Sum>m<24. sin_coeff m * x ^ m) =
      x - x ^ 3 / 6 + x ^ 5 / 120 - x ^ 7 / 5040 + x ^ 9 / 362880 - x ^ 11 / 39916800
      + x ^ 13 / 6227020800 - x ^ 15 / 1307674368000 + x ^ 17 / 355687428096000
      - x ^ 19 / 121645100408832000 + x ^ 21 / 51090942171709440000
      - x ^ 23 / 25852016738884976640000"
  by (simp add: lessThan_nat_numeral lessThan_Suc sin_coeff_def fact_numeral)

lemma sin_bounds24:
  fixes x :: real
  assumes "0 \<le> x"
  shows "x - x ^ 3 / 6 + x ^ 5 / 120 - x ^ 7 / 5040 + x ^ 9 / 362880 - x ^ 11 / 39916800
      + x ^ 13 / 6227020800 - x ^ 15 / 1307674368000 + x ^ 17 / 355687428096000
      - x ^ 19 / 121645100408832000 + x ^ 21 / 51090942171709440000
      - x ^ 23 / 25852016738884976640000
      - x ^ 24 / 620448401733239439360000 \<le> sin x"
    and "sin x \<le> x - x ^ 3 / 6 + x ^ 5 / 120 - x ^ 7 / 5040 + x ^ 9 / 362880 - x ^ 11 / 39916800
      + x ^ 13 / 6227020800 - x ^ 15 / 1307674368000 + x ^ 17 / 355687428096000
      - x ^ 19 / 121645100408832000 + x ^ 21 / 51090942171709440000
      - x ^ 23 / 25852016738884976640000
      + x ^ 24 / 620448401733239439360000"
proof -
  have "\<bar>sin x - (\<Sum>m<24. sin_coeff m * x ^ m)\<bar> \<le> inverse (fact 24) * \<bar>x\<bar> ^ 24"
    by (rule Maclaurin_sin_bound)
  moreover have "inverse (fact 24) * \<bar>x\<bar> ^ 24 = x ^ 24 / 620448401733239439360000"
    using assms by (simp add: fact_numeral)
  ultimately have "\<bar>sin x - (x - x ^ 3 / 6 + x ^ 5 / 120 - x ^ 7 / 5040 + x ^ 9 / 362880 - x ^ 11 / 39916800
      + x ^ 13 / 6227020800 - x ^ 15 / 1307674368000 + x ^ 17 / 355687428096000
      - x ^ 19 / 121645100408832000 + x ^ 21 / 51090942171709440000
      - x ^ 23 / 25852016738884976640000)\<bar>
      \<le> x ^ 24 / 620448401733239439360000"
    by (simp only: sin_poly24)
  then show "x - x ^ 3 / 6 + x ^ 5 / 120 - x ^ 7 / 5040 + x ^ 9 / 362880 - x ^ 11 / 39916800
      + x ^ 13 / 6227020800 - x ^ 15 / 1307674368000 + x ^ 17 / 355687428096000
      - x ^ 19 / 121645100408832000 + x ^ 21 / 51090942171709440000
      - x ^ 23 / 25852016738884976640000
      - x ^ 24 / 620448401733239439360000 \<le> sin x"
    and "sin x \<le> x - x ^ 3 / 6 + x ^ 5 / 120 - x ^ 7 / 5040 + x ^ 9 / 362880 - x ^ 11 / 39916800
      + x ^ 13 / 6227020800 - x ^ 15 / 1307674368000 + x ^ 17 / 355687428096000
      - x ^ 19 / 121645100408832000 + x ^ 21 / 51090942171709440000
      - x ^ 23 / 25852016738884976640000
      + x ^ 24 / 620448401733239439360000"
    by (rule abs_le_D)+
qed

text \<open>The roundings of \<^verbatim>\<open>distanceKm([8, 0], [-8, 180])\<close>, one by one.\<close>

lemma double_1: "double (1) = 1"
  using double_eqI_neg [of 52 "1" "4503599627370496"] by (simp)

lemma double_16: "double (16) = 16"
  using double_eqI_neg [of 48 "16" "4503599627370496"] by (simp)

lemma double_180: "double (180 - 0) = 180"
  using double_eqI_neg [of 45 "180 - 0" "6333186975989760"] by (simp)

lemma toRad_double_8: "toRad_double 8 = 5030569068109113 / 2 ^ 55"
proof -
  have "double (8 * (884279719003555 / 2 ^ 48)) = 8 * (884279719003555 / 2 ^ 48)"
    using double_eqI_neg [of 48 "8 * (884279719003555 / 2 ^ 48)" 7074237752028440] by simp
  moreover have "double (8 * (884279719003555 / 2 ^ 48) / 180) = 5030569068109113 / 2 ^ 55"
    using double_eqI_neg [of 55 "8 * (884279719003555 / 2 ^ 48) / 180" 5030569068109113] by simp
  ultimately show ?thesis by (simp only: toRad_double_def Math_PI_def)
qed

lemma toRad_double_16: "toRad_double 16 = 5030569068109113 / 2 ^ 54"
proof -
  have "double (16 * (884279719003555 / 2 ^ 48)) = 16 * (884279719003555 / 2 ^ 48)"
    using double_eqI_neg [of 47 "16 * (884279719003555 / 2 ^ 48)" 7074237752028440] by simp
  moreover have "double (16 * (884279719003555 / 2 ^ 48) / 180) = 5030569068109113 / 2 ^ 54"
    using double_eqI_neg [of 54 "16 * (884279719003555 / 2 ^ 48) / 180" 5030569068109113] by simp
  ultimately show ?thesis by (simp only: toRad_double_def Math_PI_def)
qed

lemma toRad_double_180: "toRad_double 180 = 884279719003555 / 2 ^ 48"
proof -
  have "double (180 * (884279719003555 / 2 ^ 48)) = 4974073419394997 / 2 ^ 43"
    using double_eqI_neg [of 43 "180 * (884279719003555 / 2 ^ 48)" 4974073419394997] by simp
  moreover have "double (4974073419394997 / 2 ^ 43 / 180) = 884279719003555 / 2 ^ 48"
    using double_eqI_neg [of 51 "4974073419394997 / 2 ^ 43 / 180" 7074237752028440] by simp
  ultimately show ?thesis by (simp only: toRad_double_def Math_PI_def)
qed

lemma double_half_dLat: "double (5030569068109113 / 2 ^ 54 / 2) = 5030569068109113 / 2 ^ 55"
  using double_eqI_neg [of 55 "5030569068109113 / 2 ^ 54 / 2" "5030569068109113"] by (simp)

lemma double_half_dLon: "double (884279719003555 / 2 ^ 48 / 2) = 884279719003555 / 2 ^ 49"
  using double_eqI_neg [of 52 "884279719003555 / 2 ^ 48 / 2" "7074237752028440"] by (simp)

lemma double_sin_lat: "double (sin (5030569068109113 / 2 ^ 55)) = 5014239404989977 / 2 ^ 55"
proof -
  let ?x = "5030569068109113 / 2 ^ 55 :: real"
  have x: "0 \<le> ?x" by simp
  note b = sin_bounds12 [OF x]
  have lo: "5014239404989977 / 2 ^ 55 - 1 / 2 ^ 57 < sin ?x"
    by (rule less_le_trans [OF _ b(1)]) (simp add: power_divide)
  have hi: "sin ?x < 5014239404989977 / 2 ^ 55 + 1 / 2 ^ 57"
    by (rule le_less_trans [OF b(2)]) (simp add: power_divide)
  have "0 < sin ?x" using lo by simp
  then have a: "\<bar>sin ?x\<bar> = sin ?x" by simp
  have "2 ^ 52 / 2 ^ 55 \<le> \<bar>sin ?x\<bar>" "\<bar>sin ?x\<bar> < 2 ^ 53 / 2 ^ 55"
    unfolding a using lo hi by simp_all
  moreover have "\<bar>sin ?x - 5014239404989977 / 2 ^ 55\<bar> < 1 / 2 ^ 56"
    by (rule near_I [OF lo hi]) simp
  ultimately show ?thesis
    using double_eqI_neg [of 55 "sin ?x" 5014239404989977] by simp
qed

lemma double_cos_lat: "double (cos (5030569068109113 / 2 ^ 55)) = 8919541810762874 / 2 ^ 53"
proof -
  let ?x = "5030569068109113 / 2 ^ 55 :: real"
  have x: "0 \<le> ?x" by simp
  note b = cos_bounds12 [OF x]
  have lo: "8919541810762874 / 2 ^ 53 - 127 / 2 ^ 61 < cos ?x"
    by (rule less_le_trans [OF _ b(1)]) (simp add: power_divide)
  have hi: "cos ?x < 8919541810762874 / 2 ^ 53 + 127 / 2 ^ 61"
    by (rule le_less_trans [OF b(2)]) (simp add: power_divide)
  have "0 < cos ?x" using lo by simp
  then have a: "\<bar>cos ?x\<bar> = cos ?x" by simp
  have "2 ^ 52 / 2 ^ 53 \<le> \<bar>cos ?x\<bar>" "\<bar>cos ?x\<bar> < 2 ^ 53 / 2 ^ 53"
    unfolding a using lo hi by simp_all
  moreover have "\<bar>cos ?x - 8919541810762874 / 2 ^ 53\<bar> < 1 / 2 ^ 54"
    by (rule near_I [OF lo hi]) simp
  ultimately show ?thesis
    using double_eqI_neg [of 53 "cos ?x" 8919541810762874] by simp
qed

lemma double_sin_half_pi: "double (sin (884279719003555 / 2 ^ 49)) = 1"
proof -
  let ?x = "884279719003555 / 2 ^ 49 :: real"
  have x: "0 \<le> ?x" by simp
  have lo: "1 - 1 / 2 ^ 55 < sin ?x"
    by (rule less_le_trans [OF _ sin_bounds24(1) [OF x]]) (simp add: power_divide)
  show ?thesis
  proof (cases "sin ?x = 1")
    case True
    then show ?thesis by (simp only: double_1)
  next
    case False
    then have hi: "sin ?x < 1" using sin_le_one [of ?x] by (metis less_le)
    have "0 < sin ?x" using lo by simp
    then have a: "\<bar>sin ?x\<bar> = sin ?x" by simp
    have "2 ^ 52 / 2 ^ 53 \<le> \<bar>sin ?x\<bar>" "\<bar>sin ?x\<bar> < 2 ^ 53 / 2 ^ 53"
      unfolding a using lo hi by simp_all
    moreover have "\<bar>sin ?x - 1\<bar> < 1 / 2 ^ 54"
      using lo hi by (intro near_I [of 1 "1 / 2 ^ 55"]) simp_all
    ultimately show ?thesis
      using double_eqI_neg [of 53 "sin ?x" 9007199254740992] by simp
  qed
qed

lemma double_sin_sq: "double ((5014239404989977 / 2 ^ 55)\<^sup>2) = 5582777975588868 / 2 ^ 58"
  using double_eqI_neg [of 58 "(5014239404989977 / 2 ^ 55)\<^sup>2" "5582777975588868"] by (simp add: power_divide)

lemma double_cos_cos: "double (8919541810762874 / 2 ^ 53 * (8919541810762874 / 2 ^ 53)) = 8832737443003841 / 2 ^ 53"
  using double_eqI_neg [of 53 "8919541810762874 / 2 ^ 53 * (8919541810762874 / 2 ^ 53)" "8832737443003841"] by (simp)

lemma double_cos_sin: "double (8832737443003841 / 2 ^ 53 * 1) = 8832737443003841 / 2 ^ 53"
  using double_eqI_neg [of 53 "8832737443003841 / 2 ^ 53 * 1" "8832737443003841"] by (simp)

lemma double_sum: "double (5582777975588868 / 2 ^ 58 + 8832737443003841 / 2 ^ 53) = 1 + 1 / 2 ^ 52"
  using double_eqI_neg [of 52 "5582777975588868 / 2 ^ 58 + 8832737443003841 / 2 ^ 53" "4503599627370497"] by (simp)

lemma double_rest: "double (1 - (1 + 1 / 2 ^ 52)) = - (1 / 2 ^ 52)"
  using double_eqI_neg [of 104 "1 - (1 + 1 / 2 ^ 52)" "- 4503599627370496"] by (simp)

text \<open>The haversine argument of the script at the two points is above 1.\<close>

lemma haversine_double_above_1: "haversine_double (8, 0) (- 8, 180) = 1 + 1 / 2 ^ 52"
proof -
  have dLat: "toRad_double (double (- 8 - 8)) = - (5030569068109113 / 2 ^ 54)"
    using double_minus [of 16] toRad_double_minus [of 16] by (simp add: double_16 toRad_double_16)
  have lat2: "toRad_double (- 8) = - (5030569068109113 / 2 ^ 55)"
    using toRad_double_minus [of 8] by (simp only: toRad_double_8)
  have hLat: "double (- (5030569068109113 / 2 ^ 54) / 2) = - (5030569068109113 / 2 ^ 55)"
    using double_minus [of "5030569068109113 / 2 ^ 54 / 2"] by (simp only: double_half_dLat minus_divide_left)
  have sLat: "(double (sin (- (5030569068109113 / 2 ^ 55))))\<^sup>2 = (5014239404989977 / 2 ^ 55)\<^sup>2"
    by (simp only: sin_minus double_minus double_sin_lat power2_minus)
  have cLat: "double (cos (- (5030569068109113 / 2 ^ 55))) = 8919541810762874 / 2 ^ 53"
    by (simp only: cos_minus double_cos_lat)
  have one: "double (1\<^sup>2) = 1" by (simp only: power_one double_1)
  show ?thesis
    unfolding haversine_double_def Let_def fst_conv snd_conv dLat lat2 hLat sLat cLat
      double_180 toRad_double_180 toRad_double_8 double_half_dLon double_sin_half_pi one
      double_sin_sq double_cos_lat double_cos_cos double_cos_sin
    by (rule double_sum)
qed

text \<open>
  The double computation gives the same value in both directions and 0 from a point to
  itself, so \<^verbatim>\<open>==\<close> holds between the two directions exactly when the value is a
  number.
\<close>

lemma haversine_double_sym: "haversine_double a b = haversine_double b a"
proof -
  have d: "double (p - q) = - double (q - p)" for p q :: real
    using double_minus [of "q - p"] by simp
  have s: "(double (sin (double (toRad_double (double (p - q)) / 2))))\<^sup>2
      = (double (sin (double (toRad_double (double (q - p)) / 2))))\<^sup>2" for p q :: real
    unfolding d [of p q] toRad_double_minus
    using double_minus [of "toRad_double (double (q - p)) / 2"]
    by (simp add: double_minus)
  show ?thesis
    unfolding haversine_double_def Let_def s [of "fst b" "fst a"] s [of "snd b" "snd a"]
    by (simp only: mult.commute)
qed

lemma distanceKm_double_sym: "distanceKm_double a b = distanceKm_double b a"
  by (simp only: distanceKm_double_def haversine_double_sym [of a b])

lemma distanceKm_double_same: "distanceKm_double a a = Num 0"
proof -
  have z: "double 0 = 0" by (simp add: double_def)
  have "haversine_double a a = 0"
    by (simp add: haversine_double_def toRad_double_def z)
  then show ?thesis
    by (simp add: distanceKm_double_def sqrt_double_def z double_1 atan2_def)
qed

lemma js_eq_directions:
  "js_eq (distanceKm_double a b) (distanceKm_double b a) \<longleftrightarrow> distanceKm_double a b \<noteq> NaN"
  unfolding distanceKm_double_sym [of b a]
  by (cases "distanceKm_double a b") simp_all

text \<open>
  Claim C9, at the points \<open>[8, 0]\<close> and \<open>[-8, 180]\<close>. The claim makes the two distances
  equal. In the doubles of the script the haversine argument is \<open>1 + 2\<^sup>-\<^sup>5\<^sup>2\<close>, the
  code takes the square root of \<open>1 - x < 0\<close>, and the distance is \<open>NaN\<close> in both
  directions: \<^verbatim>\<open>distanceKm(a, b) == distanceKm(b, a)\<close> is false.
\<close>

theorem distanceKm_nan_near_antipodes:
  "haversine_double (8, 0) (- 8, 180) = 1 + 1 / 2 ^ 52
   \<and> distanceKm_double (8, 0) (- 8, 180) = NaN
   \<and> distanceKm_double (- 8, 180) (8, 0) = NaN
   \<and> \<not> js_eq (distanceKm_double (8, 0) (- 8, 180)) (distanceKm_double (- 8, 180) (8, 0))"
proof -
  have n: "distanceKm_double (8, 0) (- 8, 180) = NaN"
    unfolding distanceKm_double_def Let_def haversine_double_above_1 double_rest
    by (simp add: sqrt_double_def)
  then have "distanceKm_double (- 8, 180) (8, 0) = NaN"
    by (simp only: distanceKm_double_sym [of "(- 8, 180)" "(8, 0)"])
  with n show ?thesis by (simp add: haversine_double_above_1)
qed


subsection \<open>Traffic prediction\<close>

text \<open>
  For every key that is not the name of a property inherited from \<open>Object.prototype\<close>
  the function computes the rule of the specification, at every hour.
\<close>

lemma predictTrafficLevel_plain_key:
  "accidentKey \<notin> set OBJECT_PROTOTYPE_KEYS \<Longrightarrow>
     predictTrafficLevel accidentKey hour = spec_predictTrafficLevel accidentKey hour"
  by (simp add: predictTrafficLevel_def spec_predictTrafficLevel_def biasOf_def Let_def
      split: option.splits)

lemma predictTrafficLevel_known_keys:
  "predictTrafficLevel ''guindy'' hour = spec_predictTrafficLevel ''guindy'' hour"
  "predictTrafficLevel ''tnagar'' hour = spec_predictTrafficLevel ''tnagar'' hour"
  "predictTrafficLevel ''egmore'' hour = spec_predictTrafficLevel ''egmore'' hour"
  "predictTrafficLevel ''central'' hour = spec_predictTrafficLevel ''central'' hour"
  by (rule predictTrafficLevel_plain_key, simp add: OBJECT_PROTOTYPE_KEYS_def)+

text \<open>
  Claim C5, at the key \<open>constructor\<close> and the peak hour 8. The key is not in the bias
  table, so the rule of the claim gives it the weight 1 and the score 3, Medium. The code
  reads the inherited property \<open>constructor\<close>, which is not \<open>undefined\<close>, so no default
  is taken, the score is a string, both comparisons are false and the result is Low.
\<close>

theorem predictTrafficLevel_inherited_key:
  "predictTrafficLevel ''constructor'' 8 = Low
   \<and> spec_predictTrafficLevel ''constructor'' 8 = Medium"
  by (simp add: predictTrafficLevel_def spec_predictTrafficLevel_def biasOf_def BIAS_TABLE_def
      OBJECT_PROTOTYPE_KEYS_def)

subsection \<open>Route ranking\<close>

lemma mset_insert_by: "mset (insert_by c x xs) = add_mset x (mset xs)"
  by (induction xs) simp_all

lemma mset_sort_by: "mset (sort_by c xs) = mset xs"
  by (induction xs) (simp_all add: sort_by_def mset_insert_by)

lemma set_insert_by: "set (insert_by c x xs) = insert x (set xs)"
  by (induction xs) auto

lemma sorted_insert_by:
  assumes total: "\<And>x y. c x y \<le> 0 \<or> c y x \<le> 0"
    and trans: "\<And>x y z. c x y \<le> 0 \<Longrightarrow> c y z \<le> 0 \<Longrightarrow> c x z \<le> 0"
  shows "sorted_wrt (\<lambda>a b. c a b \<le> 0) xs \<Longrightarrow>
    sorted_wrt (\<lambda>a b. c a b \<le> 0) (insert_by c x xs)"
proof (induction xs)
  case Nil
  then show ?case by simp
next
  case (Cons y ys)
  show ?case
  proof (cases "c x y \<le> 0")
    case True
    with Cons.prems trans show ?thesis by auto
  next
    case False
    with total have "c y x \<le> 0" by blast
    with False Cons show ?thesis by (auto simp: set_insert_by)
  qed
qed

lemma sorted_sort_by:
  assumes total: "\<And>x y. c x y \<le> 0 \<or> c y x \<le> 0"
    and trans: "\<And>x y z. c x y \<le> 0 \<Longrightarrow> c y z \<le> 0 \<Longrightarrow> c x z \<le> 0"
  shows "sorted_wrt (\<lambda>a b. c a b \<le> 0) (sort_by c xs)"
proof (induction xs)
  case Nil
  then show ?case by (simp add: sort_by_def)
next
  case (Cons x xs)
  have "sort_by c (x # xs) = insert_by c x (sort_by c xs)" by (simp add: sort_by_def)
  with Cons sorted_insert_by [of c, OF total trans] show ?case by simp
qed

lemma compareCards_le:
  "compareCards a b \<le> 0 \<longleftrightarrow>
     tRank (traffic a) < tRank (traffic b)
     \<or> (tRank (traffic a) = tRank (traffic b) \<and> timeMin a \<le> timeMin b)"
  by (auto simp: compareCards_def Let_def)

lemma ranked_sorted:
  "sorted_wrt (\<lambda>a b. tRank (traffic a) < tRank (traffic b)
        \<or> (tRank (traffic a) = tRank (traffic b) \<and> timeMin a \<le> timeMin b)) (rankedRoutes p)"
proof -
  have "sorted_wrt (\<lambda>a b. compareCards a b \<le> 0) (rankedRoutes p)"
    unfolding rankedRoutes_def
    by (rule sorted_sort_by) (auto simp: compareCards_le)
  then show ?thesis by (simp add: compareCards_le)
qed

lemma routeCard_fields:
  "traffic (routeCard p r) = adjust p (baseTraffic r)"
  "distance (routeCard p r) = polylineDistanceKm (coords r)"
  "timeMin (routeCard p r) =
     estimatedTimeMinutes (polylineDistanceKm (coords r)) (adjust p (baseTraffic r))"
  "rid (routeCard p r) = rid r" "coords (routeCard p r) = coords r"
  "name (routeCard p r) = name r" "baseTraffic (routeCard p r) = baseTraffic r"
  by (simp_all add: routeCard_def Let_def route.defs route_card.defs)

lemma rankedRoutes_nonempty: "rankedRoutes p \<noteq> []"
proof
  assume "rankedRoutes p = []"
  then have "mset (routeList p) = {#}"
    using mset_sort_by [of compareCards "routeList p"] by (simp add: rankedRoutes_def)
  then show False by (simp add: routeList_def)
qed

lemma selected_after_build:
  "selectedRouteId (buildRouteCards p s) = Some (rid (hd (rankedRoutes p)))"
  using rankedRoutes_nonempty [of p]
  by (simp add: buildRouteCards_def Let_def setSelectedRoute_def setRouteHighlight_def
      hd_conv_nth)

text \<open>
  Claim C6. For each of the three catalog routes the card's traffic label is the baseline
  adjusted toward the prediction (a High prediction lifts Low to Medium and Medium to High,
  a Low prediction lowers High to Medium, anything else is unchanged); its time is
  (distance / 35 * 60) times 1.0, 1.25 or 1.55 for Low, Medium, High. The ranked list is a
  rearrangement of the three cards in which every card stands before every card of a
  higher severity rank and, among cards of equal rank, before every card of a greater
  time, whatever the distances; and the first card of the ranked list is the route that is
  selected.
\<close>

theorem route_ranking:
  "traffic (routeCard p r) = adjust p (baseTraffic r)
   \<and> adjust High Low = Medium \<and> adjust High Medium = High \<and> adjust High High = High
   \<and> adjust Low High = Medium \<and> adjust Low Low = Low \<and> adjust Low Medium = Medium
   \<and> adjust Medium b = b
   \<and> distance (routeCard p r) = polylineDistanceKm (coords r)
   \<and> timeMin (routeCard p r) =
       (distance (routeCard p r) / 35 * 60)
         * (case traffic (routeCard p r) of Low \<Rightarrow> 1.0 | Medium \<Rightarrow> 1.25 | High \<Rightarrow> 1.55)
   \<and> routeList p = map (routeCard p) [ROUTES fastest, ROUTES alternative, ROUTES shortest]
   \<and> map rid (routeList p) = [fastest, alternative, shortest]
   \<and> mset (rankedRoutes p) = mset (routeList p)
   \<and> sorted_wrt (\<lambda>a b. tRank (traffic a) < tRank (traffic b)
        \<or> (tRank (traffic a) = tRank (traffic b) \<and> timeMin a \<le> timeMin b)) (rankedRoutes p)
   \<and> tRank Low < tRank Medium \<and> tRank Medium < tRank High
   \<and> selectedRouteId (buildRouteCards p s) = Some (rid (hd (rankedRoutes p)))"
proof -
  have adj: "adjust High Low = Medium \<and> adjust High Medium = High \<and> adjust High High = High
   \<and> adjust Low High = Medium \<and> adjust Low Low = Low \<and> adjust Low Medium = Medium
   \<and> adjust Medium b = b" by (simp add: adjust_def)
  have tm: "timeMin (routeCard p r) =
       (distance (routeCard p r) / 35 * 60)
         * (case traffic (routeCard p r) of Low \<Rightarrow> 1.0 | Medium \<Rightarrow> 1.25 | High \<Rightarrow> 1.55)"
    by (simp add: routeCard_fields estimatedTimeMinutes_def Let_def split: traffic_level.splits)
  have ids: "map rid (routeList p) = [fastest, alternative, shortest]"
    by (simp add: routeList_def routeCard_fields ROUTES_def)
  have ms: "mset (rankedRoutes p) = mset (routeList p)"
    by (simp add: rankedRoutes_def mset_sort_by)
  have rk: "tRank Low < tRank Medium \<and> tRank Medium < tRank High" by (simp add: tRank_def)
  show ?thesis
    using adj tm ids ms rk ranked_sorted [of p] selected_after_build [of p s]
    by (simp add: routeCard_fields routeList_def)
qed

subsection \<open>The drive session\<close>

lemmas setters = setSignalStateFor_def setRouteHighlight_def logEvent_def clearLog_def
  setEmergencyMode_def setAdvanceDetection_def setDistanceUI_def setAutoControl_def
  stopDriveTimer_def upd_signal_def

lemma session_upd_signal: "session (upd_signal k f s) = session s"
  by (simp add: session_def upd_signal_def)

lemma session_markCrossed: "session (markCrossed k s) = session s"
  by (simp add: session_def markCrossed_def setters split: option.splits)

lemma session_handleAdvance: "session (handleAdvanceDetectionFor k d s) = session s"
  by (simp add: session_def handleAdvanceDetectionFor_def Let_def setters split: option.splits)

lemma session_handleOverride: "session (handleSignalOverrideFor k d s) = session s"
  by (simp add: session_def handleSignalOverrideFor_def Let_def setters split: option.splits)

lemma session_handleAfterCrossing: "session (handleAfterCrossingFor k d s) = session s"
  by (simp add: handleAfterCrossingFor_def Let_def session_upd_signal session_markCrossed
      split: option.splits)

lemma session_trackSignal: "session (trackSignal k s) = session s"
  by (simp add: trackSignal_def Let_def session_handleAfterCrossing session_handleOverride
      session_handleAdvance)
     (simp add: session_def setters)

lemma session_stepPosition:
  "session (stepPosition cs s) =
     (selectedRouteId s, isDriving s,
      (if segmentProgress s + STEP \<ge> 1 then currentIndex s + 1 else currentIndex s),
      (if segmentProgress s + STEP \<ge> 1 then 0 else segmentProgress s + STEP),
      interpolatePoint (cs ! currentIndex s) (cs ! (currentIndex s + 1))
        (if segmentProgress s + STEP \<ge> 1 then 0 else segmentProgress s + STEP))"
  by (simp add: session_def stepPosition_def Let_def)

lemma session_driveTick: "session (driveTick s) = sessionTick (session s)"
proof (cases "selectedRouteId s")
  case None
  then show ?thesis by (simp add: driveTick_def session_def)
next
  case (Some r)
  show ?thesis
  proof (cases "isDriving s \<and> \<not> currentIndex s \<ge> length (coords (ROUTES r)) - 1")
    case False
    with Some show ?thesis by (auto simp: driveTick_def session_def Let_def stopDriveTimer_def)
  next
    case True
    have "session (driveTick s) = session (stepPosition (coords (ROUTES r)) s)"
      using Some True
      by (simp add: driveTick_def Let_def session_trackSignal split: option.splits)
         (simp add: session_def setters)
    with Some True show ?thesis
      by (simp add: session_stepPosition) (simp add: session_def)
  qed
qed

lemma session_ticks: "session (ticks n s) = (sessionTick ^^ n) (session s)"
  by (induction n arbitrary: s) (simp_all add: session_driveTick funpow_swap1)

lemma segment_21:
  assumes "i < length (coords (ROUTES r)) - 1"
  shows "(sessionTick ^^ 21) (Some r, True, i, 0, pos)
         = (Some r, True, i + 1, 0, coords (ROUTES r) ! i)"
  using assms
  by (simp add: numeral_eq_Suc STEP_def TICK_MS_def SEGMENT_TIME_MS_def interpolatePoint_def)

lemma segment_20:
  assumes "i < length (coords (ROUTES r)) - 1"
  shows "(sessionTick ^^ 20) (Some r, True, i, 0, pos)
         = (Some r, True, i, 20 / 21,
            interpolatePoint (coords (ROUTES r) ! i) (coords (ROUTES r) ! (i + 1)) (20 / 21))"
  using assms by (simp add: numeral_eq_Suc STEP_def TICK_MS_def SEGMENT_TIME_MS_def)

lemma resetDriveState_session:
  "\<not> driveTimer (resetDriveState s)" "\<not> isDriving (resetDriveState s)"
  "currentIndex (resetDriveState s) = 0" "segmentProgress (resetDriveState s) = 0"
  "selectedRouteId (resetDriveState s) = selectedRouteId s"
  "ambulancePos (resetDriveState s) = ambulancePos s"
  by (simp_all add: resetDriveState_def setAllSignalsNormal_def setters Let_def)


lemma resetDriveState_signals:
  "signalRuntime (resetDriveState s)
     = map (\<lambda>g. initialSignal (sid g, location g)) (signalRuntime s)"
  by (simp add: resetDriveState_def setAllSignalsNormal_def setters Let_def initialSignal_def)

lemma driveTick_stopped: "\<not> isDriving s \<Longrightarrow> driveTick s = s"
  by (simp add: driveTick_def split: option.splits)

lemma ticks_stopped: "\<not> isDriving s \<Longrightarrow> ticks n s = s"
  by (induction n) (simp_all add: driveTick_stopped)

lemma session_start:
  "selectedRouteId s = Some r \<Longrightarrow> \<not> isDriving s \<Longrightarrow>
     session (startEmergencyDrive s) = (Some r, True, 0, 0, coords (ROUTES r) ! 0)"
  by (simp add: session_def startEmergencyDrive_def Let_def logEvent_def clearLog_def
      resetDriveState_session setEmergencyMode_def)

lemma session_setSelectedRoute:
  "session (setSelectedRoute r s) =
     (Some r, isDriving s, currentIndex s, segmentProgress s, coords (ROUTES r) ! 0)"
  by (simp add: session_def setSelectedRoute_def setRouteHighlight_def Let_def)

lemma session_loaded: "session loadedState = (None, False, 0, 0, CITY_CENTER)"
  by (simp add: session_def loadedState_def)

lemma drive_inv_session:
  "drive_inv s = (case session s of (sel, drv, i, p, pos) \<Rightarrow>
      0 \<le> p \<and> p < 1 \<and> (case sel of None \<Rightarrow> True | Some r \<Rightarrow> i \<le> length (coords (ROUTES r)) - 1))"
  by (simp add: drive_inv_def session_def)

lemma session_fields:
  "session s = (sel, drv, i, p, pos) \<Longrightarrow>
     selectedRouteId s = sel \<and> isDriving s = drv \<and> currentIndex s = i \<and> segmentProgress s = p \<and> ambulancePos s = pos"
  by (simp add: session_def)

lemma session_demo:
  "session (startEmergencyDrive (setSelectedRoute r loadedState)) = (Some r, True, 0, 0, coords (ROUTES r) ! 0)"
  by (rule session_start) (simp_all add: setSelectedRoute_def setRouteHighlight_def loadedState_def)


text \<open>
  Claim C7. After \<^verbatim>\<open>resetDriveState\<close>, from any state, the timer is cleared and the
  driving flag is false, the waypoint index and the progress are 0, and every signal has
  its initial runtime values (mode normal, no nearest index, minimum distance infinity,
  no last distance, the three flags false) with its id and location. Neither the timer nor
  any number of ticks changes the state from then on: the position and the index stay.
\<close>

theorem reset_clears_state:
  "\<not> driveTimer (resetDriveState s) \<and> \<not> isDriving (resetDriveState s)
   \<and> currentIndex (resetDriveState s) = 0 \<and> segmentProgress (resetDriveState s) = 0
   \<and> signalRuntime (resetDriveState s) =
        map (\<lambda>g. \<lparr>sid = sid g, location = location g, state = NORMAL, nearestIndex = None,
                   minDistance = Infinity, lastDistance = None, advanceTriggered = False,
                   overrideActive = False, passed = False\<rparr>) (signalRuntime s)
   \<and> timerFires (resetDriveState s) = resetDriveState s
   \<and> ticks n (resetDriveState s) = resetDriveState s
   \<and> ambulancePos (ticks n (resetDriveState s)) = ambulancePos s
   \<and> currentIndex (ticks n (resetDriveState s)) = 0"
  using resetDriveState_signals [of s]
  by (simp add: resetDriveState_session ticks_stopped timerFires_def driveTick_stopped
      initialSignal_def)

subsection \<open>Starting a drive\<close>

lemma nearest_fold:
  "fold (nearestStep cs loc) [0 ..< Suc j] (Infinity, 0) = (best, bi) \<Longrightarrow>
     bi \<le> j \<and> best = Km (distanceKm (cs ! bi) loc)
     \<and> (\<forall>i \<le> j. distanceKm (cs ! bi) loc \<le> distanceKm (cs ! i) loc)
     \<and> (\<forall>i < bi. distanceKm (cs ! bi) loc < distanceKm (cs ! i) loc)"
proof (induction j arbitrary: best bi)
  case 0
  then show ?case by (simp add: nearestStep_def)
next
  case (Suc j)
  obtain b0 i0 where f: "fold (nearestStep cs loc) [0 ..< Suc j] (Infinity, 0) = (b0, i0)"
    by (cases "fold (nearestStep cs loc) [0 ..< Suc j] (Infinity, 0)") auto
  note ih = Suc.IH [OF f]
  have st: "nearestStep cs loc (Suc j) (b0, i0) = (best, bi)"
    using Suc.prems f by simp
  show ?case
  proof (cases "distanceKm (cs ! Suc j) loc < distanceKm (cs ! i0) loc")
    case True
    with st ih have "bi = Suc j" "best = Km (distanceKm (cs ! Suc j) loc)"
      by (auto simp: nearestStep_def Let_def)
    with True ih show ?thesis by (auto simp: le_Suc_eq less_Suc_eq_le)
  next
    case False
    with st ih have "bi = i0" "best = b0"
      by (auto simp: nearestStep_def Let_def)
    with False ih show ?thesis by (auto simp: le_Suc_eq)
  qed
qed

lemma nearestWaypoint_fold:
  "nearestWaypoint cs loc = snd (fold (nearestStep cs loc) [0 ..< length cs] (Infinity, 0))"
  unfolding nearestWaypoint_def nearestStep_def by (simp add: case_prod_unfold)

text \<open>The index the loop finds is the first waypoint of least distance to the signal.\<close>

lemma nearestWaypoint_minimal:
  assumes "cs \<noteq> []"
  shows "nearestWaypoint cs loc < length cs
     \<and> (\<forall>i < length cs.
           distanceKm (cs ! nearestWaypoint cs loc) loc \<le> distanceKm (cs ! i) loc)
     \<and> (\<forall>i < nearestWaypoint cs loc.
           distanceKm (cs ! nearestWaypoint cs loc) loc < distanceKm (cs ! i) loc)"
proof -
  from assms obtain j where j: "length cs = Suc j" by (cases cs) auto
  obtain best bi where f: "fold (nearestStep cs loc) [0 ..< Suc j] (Infinity, 0) = (best, bi)"
    by (cases "fold (nearestStep cs loc) [0 ..< Suc j] (Infinity, 0)") auto
  have "nearestWaypoint cs loc = bi" using f j by (simp add: nearestWaypoint_fold)
  with nearest_fold [OF f] j show ?thesis by (auto simp: less_Suc_eq_le)
qed

lemma ROUTES_coords_nonempty: "coords (ROUTES r) \<noteq> []" "2 \<le> length (coords (ROUTES r))"
  by (cases r; simp add: ROUTES_def)+

text \<open>What a start that is not refused does.\<close>

lemma startEmergencyDrive_started:
  assumes "selectedRouteId s = Some r" "\<not> isDriving s"
  shows "isDriving (startEmergencyDrive s)" "driveTimer (startEmergencyDrive s)"
    "currentIndex (startEmergencyDrive s) = 0" "segmentProgress (startEmergencyDrive s) = 0"
    "selectedRouteId (startEmergencyDrive s) = Some r"
    "emergencyMode (startEmergencyDrive s)"
    "ambulancePos (startEmergencyDrive s) = coords (ROUTES r) ! 0"
    "eventLog (startEmergencyDrive s) = [EvSelectedRoute (name (ROUTES r)), EvDriveStarted]"
    "signalRuntime (startEmergencyDrive s) =
             map (\<lambda>g. \<lparr>sid = sid g, location = location g, state = NORMAL,
                        nearestIndex = Some (nearestWaypoint (coords (ROUTES r)) (location g)),
                        minDistance = Infinity, lastDistance = None, advanceTriggered = False,
                        overrideActive = False, passed = False\<rparr>) (signalRuntime s)"
proof -
  have e: "startEmergencyDrive s =
     (logEvent (EvSelectedRoute (name (ROUTES r))) (logEvent EvDriveStarted (clearLog
        ((resetDriveState (setEmergencyMode True s))
           \<lparr>isDriving := True, ambulancePos := coords (ROUTES r) ! 0,
            signalRuntime :=
               map (\<lambda>g. g\<lparr>nearestIndex := Some (nearestWaypoint (coords (ROUTES r)) (location g)),
                           minDistance := Infinity, lastDistance := None,
                           advanceTriggered := False, overrideActive := False,
                           passed := False, state := NORMAL\<rparr>)
                 (signalRuntime (resetDriveState (setEmergencyMode True s)))\<rparr>))))
       \<lparr>driveTimer := True\<rparr>"
    using assms by (simp add: startEmergencyDrive_def Let_def)
  show "isDriving (startEmergencyDrive s)" "driveTimer (startEmergencyDrive s)"
    "currentIndex (startEmergencyDrive s) = 0" "segmentProgress (startEmergencyDrive s) = 0"
    "selectedRouteId (startEmergencyDrive s) = Some r"
    "emergencyMode (startEmergencyDrive s)"
    "ambulancePos (startEmergencyDrive s) = coords (ROUTES r) ! 0"
    "eventLog (startEmergencyDrive s) = [EvSelectedRoute (name (ROUTES r)), EvDriveStarted]"
    using assms unfolding e
    by (simp_all add: resetDriveState_def setAllSignalsNormal_def setters Let_def)
  show "signalRuntime (startEmergencyDrive s) =
             map (\<lambda>g. \<lparr>sid = sid g, location = location g, state = NORMAL,
                        nearestIndex = Some (nearestWaypoint (coords (ROUTES r)) (location g)),
                        minDistance = Infinity, lastDistance = None, advanceTriggered = False,
                        overrideActive = False, passed = False\<rparr>) (signalRuntime s)"
    unfolding e
    by (simp add: logEvent_def clearLog_def resetDriveState_signals setEmergencyMode_def
        initialSignal_def comp_def)
qed

text \<open>
  Claim C8. With no route selected, \<^verbatim>\<open>startEmergencyDrive\<close> shows the prompt and
  changes nothing else. With a route selected and a drive running it changes nothing.
  With a route selected and no drive running it sets the driving flag and the timer, puts
  the index and the progress to 0 and the ambulance on the first waypoint, resets every
  signal and gives it the index of the waypoint of the route nearest to it (an index of
  the route, of least distance to the signal), and starts the log.
\<close>

theorem start_drive_precondition:
  "(selectedRouteId s = None \<longrightarrow> startEmergencyDrive s = s\<lparr>alerts := START_PROMPT # alerts s\<rparr>)
   \<and> (selectedRouteId s \<noteq> None \<and> isDriving s \<longrightarrow> startEmergencyDrive s = s)
   \<and> (selectedRouteId s = Some r \<and> \<not> isDriving s \<longrightarrow>
        isDriving (startEmergencyDrive s) \<and> driveTimer (startEmergencyDrive s)
        \<and> currentIndex (startEmergencyDrive s) = 0 \<and> segmentProgress (startEmergencyDrive s) = 0
        \<and> selectedRouteId (startEmergencyDrive s) = Some r
        \<and> emergencyMode (startEmergencyDrive s)
        \<and> ambulancePos (startEmergencyDrive s) = coords (ROUTES r) ! 0
        \<and> eventLog (startEmergencyDrive s) = [EvSelectedRoute (name (ROUTES r)), EvDriveStarted]
        \<and> signalRuntime (startEmergencyDrive s) =
             map (\<lambda>g. \<lparr>sid = sid g, location = location g, state = NORMAL,
                        nearestIndex = Some (nearestWaypoint (coords (ROUTES r)) (location g)),
                        minDistance = Infinity, lastDistance = None, advanceTriggered = False,
                        overrideActive = False, passed = False\<rparr>) (signalRuntime s)
        \<and> nearestWaypoint (coords (ROUTES r)) loc < length (coords (ROUTES r))
        \<and> (\<forall>i < length (coords (ROUTES r)).
              distanceKm (coords (ROUTES r) ! nearestWaypoint (coords (ROUTES r)) loc) loc
                \<le> distanceKm (coords (ROUTES r) ! i) loc))"
proof (intro conjI impI)
  assume "selectedRouteId s = None"
  then show "startEmergencyDrive s = s\<lparr>alerts := START_PROMPT # alerts s\<rparr>"
    by (simp add: startEmergencyDrive_def)
next
  assume "selectedRouteId s \<noteq> None \<and> isDriving s"
  then show "startEmergencyDrive s = s"
    by (auto simp: startEmergencyDrive_def)
next
  assume a: "selectedRouteId s = Some r \<and> \<not> isDriving s"
  then have r: "selectedRouteId s = Some r" and d: "\<not> isDriving s" by simp_all
  show "isDriving (startEmergencyDrive s)" "driveTimer (startEmergencyDrive s)"
    "currentIndex (startEmergencyDrive s) = 0" "segmentProgress (startEmergencyDrive s) = 0"
    "selectedRouteId (startEmergencyDrive s) = Some r"
    "emergencyMode (startEmergencyDrive s)"
    "ambulancePos (startEmergencyDrive s) = coords (ROUTES r) ! 0"
    "eventLog (startEmergencyDrive s) = [EvSelectedRoute (name (ROUTES r)), EvDriveStarted]"
    "signalRuntime (startEmergencyDrive s) =
             map (\<lambda>g. \<lparr>sid = sid g, location = location g, state = NORMAL,
                        nearestIndex = Some (nearestWaypoint (coords (ROUTES r)) (location g)),
                        minDistance = Infinity, lastDistance = None, advanceTriggered = False,
                        overrideActive = False, passed = False\<rparr>) (signalRuntime s)"
    by (rule startEmergencyDrive_started [OF r d])+
  show "nearestWaypoint (coords (ROUTES r)) loc < length (coords (ROUTES r))"
    "\<forall>i < length (coords (ROUTES r)).
              distanceKm (coords (ROUTES r) ! nearestWaypoint (coords (ROUTES r)) loc) loc
                \<le> distanceKm (coords (ROUTES r) ! i) loc"
    using nearestWaypoint_minimal [OF ROUTES_coords_nonempty(1), of r loc] by simp_all
qed

text \<open>
  The three cases of C8 at the state the script loads, at that state with the shortest
  route selected and a drive running, and at that state with the shortest route selected.
\<close>

theorem start_drive_precondition_witness:
  "startEmergencyDrive loadedState = loadedState\<lparr>alerts := [START_PROMPT]\<rparr>
   \<and> startEmergencyDrive ((setSelectedRoute shortest loadedState)\<lparr>isDriving := True\<rparr>)
       = (setSelectedRoute shortest loadedState)\<lparr>isDriving := True\<rparr>
   \<and> isDriving (startEmergencyDrive (setSelectedRoute shortest loadedState))
   \<and> driveTimer (startEmergencyDrive (setSelectedRoute shortest loadedState))
   \<and> map nearestIndex (signalRuntime (startEmergencyDrive (setSelectedRoute shortest loadedState)))
       = map (\<lambda>g. Some (nearestWaypoint (coords (ROUTES shortest)) (location g)))
           (signalRuntime loadedState)"
proof -
  have a: "selectedRouteId loadedState = None" "alerts loadedState = []"
    by (simp_all add: loadedState_def)
  have b: "selectedRouteId ((setSelectedRoute shortest loadedState)\<lparr>isDriving := True\<rparr>) \<noteq> None
      \<and> isDriving ((setSelectedRoute shortest loadedState)\<lparr>isDriving := True\<rparr>)"
    by (simp add: setSelectedRoute_def setRouteHighlight_def)
  have c: "selectedRouteId (setSelectedRoute shortest loadedState) = Some shortest
      \<and> \<not> isDriving (setSelectedRoute shortest loadedState)"
    "signalRuntime (setSelectedRoute shortest loadedState) = signalRuntime loadedState"
    by (simp_all add: setSelectedRoute_def setRouteHighlight_def loadedState_def)
  show ?thesis
    using start_drive_precondition [of loadedState] a
      start_drive_precondition [of "(setSelectedRoute shortest loadedState)\<lparr>isDriving := True\<rparr>"] b
      start_drive_precondition [of "setSelectedRoute shortest loadedState" shortest] c
    by (simp add: comp_def)
qed

subsection \<open>The position shown\<close>

text \<open>
  A tick of a running drive that is not at the last waypoint: below 1 the progress grows
  by the step and the position is interpolated at the new progress; at 1 the index moves
  on, the progress is 0, and the position shown is the waypoint the segment started from.
\<close>

lemma driveTick_position:
  assumes "isDriving s" "selectedRouteId s = Some r"
    "currentIndex s < length (coords (ROUTES r)) - 1"
  shows "STEP = 200 / 4200"
    "segmentProgress s + STEP < 1 \<Longrightarrow>
       currentIndex (driveTick s) = currentIndex s
       \<and> segmentProgress (driveTick s) = segmentProgress s + STEP
       \<and> ambulancePos (driveTick s)
           = interpolatePoint (coords (ROUTES r) ! currentIndex s)
               (coords (ROUTES r) ! (currentIndex s + 1)) (segmentProgress s + STEP)"
    "segmentProgress s + STEP \<ge> 1 \<Longrightarrow>
       currentIndex (driveTick s) = currentIndex s + 1
       \<and> segmentProgress (driveTick s) = 0
       \<and> ambulancePos (driveTick s) = coords (ROUTES r) ! currentIndex s"
proof -
  show "STEP = 200 / 4200" by (simp add: STEP_def TICK_MS_def SEGMENT_TIME_MS_def)
  have e: "session (driveTick s)
      = sessionTick (Some r, True, currentIndex s, segmentProgress s, ambulancePos s)"
    using assms by (simp add: session_driveTick) (simp add: session_def)
  {
    assume "segmentProgress s + STEP < 1"
    with e assms(3) have "session (driveTick s) = (Some r, True, currentIndex s,
        segmentProgress s + STEP,
        interpolatePoint (coords (ROUTES r) ! currentIndex s)
          (coords (ROUTES r) ! (currentIndex s + 1)) (segmentProgress s + STEP))"
      by simp
    from session_fields [OF this]
    show "currentIndex (driveTick s) = currentIndex s
       \<and> segmentProgress (driveTick s) = segmentProgress s + STEP
       \<and> ambulancePos (driveTick s)
           = interpolatePoint (coords (ROUTES r) ! currentIndex s)
               (coords (ROUTES r) ! (currentIndex s + 1)) (segmentProgress s + STEP)"
      by simp
  }
  {
    assume "segmentProgress s + STEP \<ge> 1"
    with e assms(3) have "session (driveTick s) = (Some r, True, currentIndex s + 1, 0,
        coords (ROUTES r) ! currentIndex s)"
      by (simp add: interpolatePoint_def)
    from session_fields [OF this]
    show "currentIndex (driveTick s) = currentIndex s + 1
       \<and> segmentProgress (driveTick s) = 0
       \<and> ambulancePos (driveTick s) = coords (ROUTES r) ! currentIndex s"
      by simp
  }
qed

text \<open>At the last waypoint the next tick clears the timer and the driving flag and moves
  nothing, and no later tick does anything.\<close>

lemma driveTick_final:
  assumes "isDriving s" "selectedRouteId s = Some r"
    "currentIndex s \<ge> length (coords (ROUTES r)) - 1"
  shows "driveTick s = s\<lparr>driveTimer := False, isDriving := False\<rparr>"
    "ticks n (driveTick s) = driveTick s"
proof -
  show e: "driveTick s = s\<lparr>driveTimer := False, isDriving := False\<rparr>"
    using assms by (simp add: driveTick_def Let_def stopDriveTimer_def)
  show "ticks n (driveTick s) = driveTick s"
    by (rule ticks_stopped) (simp add: e)
qed

text \<open>
  Claim C2, on the shortest route: the drive is started and the timer fires 21 times.
  After the 20th tick the ambulance is shown 20/21 of the way from the first waypoint to
  the second. The 21st tick brings the progress to 1: the index becomes 1 and the progress
  0, so the claim puts the ambulance on the second waypoint, the interpolation between
  waypoints 1 and 2 at progress 0. The code shows the first waypoint: its two end points
  were read before the index moved.
\<close>

theorem rollover_shows_segment_start:
  "currentIndex (ticks 21 (startEmergencyDrive (setSelectedRoute shortest loadedState))) = 1
   \<and> segmentProgress (ticks 21 (startEmergencyDrive (setSelectedRoute shortest loadedState))) = 0
   \<and> ambulancePos (ticks 21 (startEmergencyDrive (setSelectedRoute shortest loadedState)))
       = (10.9488, 78.0690)
   \<and> interpolatePoint (coords (ROUTES shortest) ! 1) (coords (ROUTES shortest) ! 2) 0
       = (10.9548, 78.0736)
   \<and> ambulancePos (ticks 20 (startEmergencyDrive (setSelectedRoute shortest loadedState)))
       = interpolatePoint (10.9488, 78.0690) (10.9548, 78.0736) (20 / 21)"
proof -
  have len: "0 < length (coords (ROUTES shortest)) - 1" by (simp add: ROUTES_def)
  have s21: "session (ticks 21 (startEmergencyDrive (setSelectedRoute shortest loadedState)))
      = (Some shortest, True, 1, 0, (10.9488, 78.0690))"
    unfolding session_ticks session_demo using segment_21 [OF len] by (simp add: ROUTES_def)
  have s20: "session (ticks 20 (startEmergencyDrive (setSelectedRoute shortest loadedState)))
      = (Some shortest, True, 0, 20 / 21,
         interpolatePoint (10.9488, 78.0690) (10.9548, 78.0736) (20 / 21))"
    unfolding session_ticks session_demo using segment_20 [OF len] by (simp add: ROUTES_def)
  show ?thesis
    using session_fields [OF s21] session_fields [OF s20]
    by (simp add: ROUTES_def interpolatePoint_def)
qed

subsection \<open>The invariant of the drive session\<close>

lemma sessionTick_inv:
  assumes "0 \<le> p \<and> p < 1 \<and> (case sel of None \<Rightarrow> True | Some r \<Rightarrow> i \<le> length (coords (ROUTES r)) - 1)"
    and "sessionTick (sel, drv, i, p, pos) = (sel', drv', i', p', pos')"
  shows "0 \<le> p' \<and> p' < 1 \<and> (case sel' of None \<Rightarrow> True | Some r \<Rightarrow> i' \<le> length (coords (ROUTES r)) - 1)"
proof (cases sel)
  case None
  with assms show ?thesis by simp
next
  case (Some r)
  have "0 \<le> STEP" by (simp add: STEP_def TICK_MS_def SEGMENT_TIME_MS_def)
  with Some assms show ?thesis by (auto split: if_splits)
qed

lemma drive_inv_driveTick: "drive_inv s \<Longrightarrow> drive_inv (driveTick s)"
proof -
  assume a: "drive_inv s"
  obtain sel drv i p pos where e: "session s = (sel, drv, i, p, pos)"
    by (cases "session s") auto
  obtain sel' drv' i' p' pos' where e': "sessionTick (sel, drv, i, p, pos) = (sel', drv', i', p', pos')"
    by (cases "sessionTick (sel, drv, i, p, pos)") auto
  from a e have "0 \<le> p \<and> p < 1 \<and> (case sel of None \<Rightarrow> True | Some r \<Rightarrow> i \<le> length (coords (ROUTES r)) - 1)"
    by (simp add: drive_inv_session)
  from sessionTick_inv [OF this e'] show ?thesis
    by (simp add: drive_inv_session session_driveTick e e')
qed

lemma drive_inv_ticks: "drive_inv s \<Longrightarrow> drive_inv (ticks n s)"
  by (induction n arbitrary: s) (simp_all add: drive_inv_driveTick)

lemma drive_inv_reset: "drive_inv (resetDriveState s)"
  by (simp add: drive_inv_def resetDriveState_session split: option.splits)

lemma drive_inv_start_fresh:
  "selectedRouteId s = Some r \<Longrightarrow> \<not> isDriving s \<Longrightarrow> drive_inv (startEmergencyDrive s)"
  by (simp add: drive_inv_session session_start)

lemma drive_inv_start: "drive_inv s \<Longrightarrow> drive_inv (startEmergencyDrive s)"
proof (cases "selectedRouteId s")
  case None
  assume "drive_inv s"
  with None show ?thesis by (simp add: startEmergencyDrive_def drive_inv_def)
next
  case (Some r)
  assume a: "drive_inv s"
  show ?thesis
  proof (cases "isDriving s")
    case True
    with Some a show ?thesis by (simp add: startEmergencyDrive_def)
  next
    case False
    with Some show ?thesis by (simp add: drive_inv_start_fresh)
  qed
qed


text \<open>Twenty-one ticks take the ambulance through one segment.\<close>

lemma segments:
  "i + k \<le> length (coords (ROUTES r)) - 1 \<Longrightarrow>
     (sessionTick ^^ (21 * k)) (Some r, True, i, 0, pos)
       = (Some r, True, i + k, 0, if k = 0 then pos else coords (ROUTES r) ! (i + k - 1))"
proof (induction k)
  case 0
  then show ?case by simp
next
  case (Suc k)
  have "21 * Suc k = 21 + 21 * k" by simp
  then have "(sessionTick ^^ (21 * Suc k)) (Some r, True, i, 0, pos)
      = (sessionTick ^^ 21) ((sessionTick ^^ (21 * k)) (Some r, True, i, 0, pos))"
    by (simp only: funpow_add o_apply)
  also have "\<dots> = (sessionTick ^^ 21)
      (Some r, True, i + k, 0, if k = 0 then pos else coords (ROUTES r) ! (i + k - 1))"
    using Suc by simp
  also have "\<dots> = (Some r, True, i + k + 1, 0, coords (ROUTES r) ! (i + k))"
    using Suc.prems by (intro segment_21) simp
  finally show ?case by simp
qed

lemma fastest_126:
  "session (ticks 126 (startEmergencyDrive (setSelectedRoute fastest loadedState)))
     = (Some fastest, True, 6, 0, coords (ROUTES fastest) ! 5)"
proof -
  have len: "0 + 6 \<le> length (coords (ROUTES fastest)) - 1" by (simp add: ROUTES_def)
  have "(126::nat) = 21 * 6" by simp
  then have "(sessionTick ^^ 126) (Some fastest, True, 0, 0, coords (ROUTES fastest) ! 0)
      = (sessionTick ^^ (21 * 6)) (Some fastest, True, 0, 0, coords (ROUTES fastest) ! 0)"
    by (simp only:)
  also have "\<dots> = (Some fastest, True, 6, 0, coords (ROUTES fastest) ! 5)"
    using segments [OF len] by simp
  finally show ?thesis by (simp only: session_ticks session_demo)
qed


text \<open>
  Claim C10, as stated, on a drive of the script: the fastest route is selected, the drive
  is started, the timer fires 126 times (the index is 6, the route has 8 waypoints), the
  shortest route (5 waypoints, last index 4) is selected, and the timer fires once more.
  After that tick the index is still 6, beyond the selected route's waypoints.
\<close>

theorem route_switch_breaks_index_bound:
  "\<not> drive_inv (driveTick (setSelectedRoute shortest
        (ticks 126 (startEmergencyDrive (setSelectedRoute fastest loadedState)))))
   \<and> currentIndex (driveTick (setSelectedRoute shortest
        (ticks 126 (startEmergencyDrive (setSelectedRoute fastest loadedState))))) = 6
   \<and> length (coords (ROUTES shortest)) - 1 = 4"
proof -
  have "session (driveTick (setSelectedRoute shortest
        (ticks 126 (startEmergencyDrive (setSelectedRoute fastest loadedState)))))
     = (Some shortest, False, 6, 0, coords (ROUTES shortest) ! 0)"
    using session_fields [OF fastest_126]
    by (simp add: session_driveTick session_setSelectedRoute ROUTES_def)
  from session_fields [OF this] show ?thesis
    by (simp add: drive_inv_def ROUTES_def)
qed


text \<open>The bound on the progress alone is kept by every tick, from any state.\<close>

lemma sessionTick_progress:
  assumes "0 \<le> p \<and> p < 1"
    and "sessionTick (sel, drv, i, p, pos) = (sel', drv', i', p', pos')"
  shows "0 \<le> p' \<and> p' < 1"
proof (cases sel)
  case None
  with assms show ?thesis by simp
next
  case (Some r)
  have "0 \<le> STEP" by (simp add: STEP_def TICK_MS_def SEGMENT_TIME_MS_def)
  with Some assms show ?thesis by (auto split: if_splits)
qed

lemma progress_driveTick:
  assumes "0 \<le> segmentProgress s \<and> segmentProgress s < 1"
  shows "0 \<le> segmentProgress (driveTick s) \<and> segmentProgress (driveTick s) < 1"
proof -
  obtain sel drv i p pos where e: "session s = (sel, drv, i, p, pos)"
    by (cases "session s") auto
  obtain sel' drv' i' p' pos' where e': "sessionTick (sel, drv, i, p, pos) = (sel', drv', i', p', pos')"
    by (cases "sessionTick (sel, drv, i, p, pos)") auto
  from assms session_fields [OF e] have "0 \<le> p \<and> p < 1" by simp
  from sessionTick_progress [OF this e'] have "0 \<le> p' \<and> p' < 1" .
  moreover have "session (driveTick s) = (sel', drv', i', p', pos')"
    by (simp add: session_driveTick e e')
  ultimately show ?thesis using session_fields by blast
qed

lemma progress_ticks:
  "0 \<le> segmentProgress s \<and> segmentProgress s < 1 \<Longrightarrow>
     0 \<le> segmentProgress (ticks n s) \<and> segmentProgress (ticks n s) < 1"
  by (induction n arbitrary: s) (simp_all add: progress_driveTick)

text \<open>
  Claim C10, amended. The bounds (progress in \<open>[0, 1)\<close>, index within the selected
  route's waypoint list) hold after a reset and after a drive start that starts a drive;
  a refused start, a tick and any number of ticks preserve them. Selecting a route changes
  neither the progress nor the index. The bound on the progress is preserved by a tick
  and by any number of ticks whatever the index is.
\<close>

theorem drive_session_invariant:
  "drive_inv (resetDriveState s)
   \<and> (selectedRouteId s \<noteq> None \<and> \<not> isDriving s \<longrightarrow> drive_inv (startEmergencyDrive s))
   \<and> (drive_inv s \<longrightarrow> drive_inv (startEmergencyDrive s))
   \<and> (drive_inv s \<longrightarrow> drive_inv (driveTick s))
   \<and> (drive_inv s \<longrightarrow> drive_inv (ticks n s))
   \<and> segmentProgress (setSelectedRoute r s) = segmentProgress s
   \<and> currentIndex (setSelectedRoute r s) = currentIndex s
   \<and> (0 \<le> segmentProgress s \<and> segmentProgress s < 1 \<longrightarrow>
        0 \<le> segmentProgress (driveTick s) \<and> segmentProgress (driveTick s) < 1
        \<and> 0 \<le> segmentProgress (ticks n s) \<and> segmentProgress (ticks n s) < 1)"
  using session_fields [OF session_setSelectedRoute [of r s]]
    progress_driveTick [of s] progress_ticks [of s n]
  by (auto simp: drive_inv_reset drive_inv_start drive_inv_driveTick drive_inv_ticks
      drive_inv_start_fresh)

text \<open>
  C10 on the started drive of the shortest route, after 1 and after 30 ticks, and the
  progress after the tick that follows the selection of the shortest route at index 6.
\<close>

theorem drive_session_invariant_witness:
  "drive_inv (startEmergencyDrive (setSelectedRoute shortest loadedState))
   \<and> drive_inv (driveTick (startEmergencyDrive (setSelectedRoute shortest loadedState)))
   \<and> drive_inv (ticks 30 (startEmergencyDrive (setSelectedRoute shortest loadedState)))
   \<and> drive_inv (startEmergencyDrive (startEmergencyDrive (setSelectedRoute shortest loadedState)))
   \<and> segmentProgress (setSelectedRoute shortest
          (ticks 126 (startEmergencyDrive (setSelectedRoute fastest loadedState)))) = 0
   \<and> 0 \<le> segmentProgress (driveTick (setSelectedRoute shortest
          (ticks 126 (startEmergencyDrive (setSelectedRoute fastest loadedState)))))
   \<and> segmentProgress (driveTick (setSelectedRoute shortest
          (ticks 126 (startEmergencyDrive (setSelectedRoute fastest loadedState))))) < 1"
proof -
  have a: "selectedRouteId (setSelectedRoute shortest loadedState) \<noteq> None
      \<and> \<not> isDriving (setSelectedRoute shortest loadedState)"
    using session_fields [OF session_setSelectedRoute [of shortest loadedState]]
    by (simp add: loadedState_def)
  have b: "drive_inv (startEmergencyDrive (setSelectedRoute shortest loadedState))"
    using drive_session_invariant [of "setSelectedRoute shortest loadedState"] a by blast
  have c: "drive_inv (driveTick (startEmergencyDrive (setSelectedRoute shortest loadedState)))
      \<and> drive_inv (ticks 30 (startEmergencyDrive (setSelectedRoute shortest loadedState)))
      \<and> drive_inv (startEmergencyDrive (startEmergencyDrive (setSelectedRoute shortest loadedState)))"
    using b drive_session_invariant [of "startEmergencyDrive (setSelectedRoute shortest loadedState)" 30]
    by blast
  let ?t = "ticks 126 (startEmergencyDrive (setSelectedRoute fastest loadedState))"
  have p: "segmentProgress (setSelectedRoute shortest ?t) = 0"
    using drive_session_invariant [of ?t 0 shortest] session_fields [OF fastest_126] by simp
  then have "0 \<le> segmentProgress (setSelectedRoute shortest ?t)
      \<and> segmentProgress (setSelectedRoute shortest ?t) < 1" by simp
  with drive_session_invariant [of "setSelectedRoute shortest ?t" 0]
  have d: "0 \<le> segmentProgress (driveTick (setSelectedRoute shortest ?t))
      \<and> segmentProgress (driveTick (setSelectedRoute shortest ?t)) < 1" by blast
  from b c p d show ?thesis by blast
qed


subsection \<open>The candidates of the selection\<close>

lemma set_sort_by: "set (sort_by c xs) = set xs"
  by (induction xs) (simp_all add: sort_by_def set_insert_by)

text \<open>
  The sort is stable: a list in the order of its first components is sorted into the
  order of the second components, equal ones in the order of the first.
\<close>

lemma insert_by_lex:
  assumes "sorted_wrt (\<lambda>a b. snd a < snd b \<or> (snd a = snd b \<and> fst a < fst b)) ys"
    and "\<forall>y \<in> set ys. fst x < fst y"
  shows "sorted_wrt (\<lambda>a b. snd a < snd b \<or> (snd a = snd b \<and> fst a < fst b))
           (insert_by (\<lambda>a b. real (snd a) - real (snd b)) (x::nat \<times> nat) ys)"
  using assms
proof (induction ys)
  case Nil
  then show ?case by simp
next
  case (Cons y ys)
  show ?case
  proof (cases "snd x \<le> snd y")
    case True
    with Cons.prems show ?thesis by (fastforce simp: le_less)
  next
    case False
    with Cons show ?thesis by (auto simp: set_insert_by)
  qed
qed

lemma sort_by_lex:
  "sorted_wrt (\<lambda>a b. fst a < fst b) xs \<Longrightarrow>
   sorted_wrt (\<lambda>a b. snd a < snd b \<or> (snd a = snd b \<and> fst a < fst b))
     (sort_by (\<lambda>a b. real (snd a) - real (snd b)) (xs::(nat \<times> nat) list))"
proof (induction xs)
  case Nil
  then show ?case by (simp add: sort_by_def)
next
  case (Cons x xs)
  have e: "sort_by (\<lambda>a b. real (snd a) - real (snd b)) (x # xs)
      = insert_by (\<lambda>a b. real (snd a) - real (snd b)) x (sort_by (\<lambda>a b. real (snd a) - real (snd b)) xs)"
    by (simp add: sort_by_def)
  show ?case unfolding e
    using Cons by (intro insert_by_lex) (auto simp: set_sort_by)
qed

lemma set_map_filter: "set (List.map_filter f xs) = {y. \<exists>x \<in> set xs. f x = Some y}"
  by (induction xs) (auto split: option.splits)

lemma map_filter_fst_sorted:
  assumes "sorted_wrt (<) ks" and fk: "\<And>k y. f k = Some y \<Longrightarrow> fst y = k"
  shows "sorted_wrt (\<lambda>a b. fst a < fst b) (List.map_filter f (ks::nat list))"
  using assms(1)
proof (induction ks)
  case Nil
  then show ?case by simp
next
  case (Cons k ks)
  then have ih: "sorted_wrt (\<lambda>a b. fst a < fst b) (List.map_filter f ks)" by simp
  show ?case
  proof (cases "f k")
    case None
    with ih show ?thesis by simp
  next
    case (Some y)
    have "\<forall>z \<in> set (List.map_filter f ks). fst y < fst z"
    proof
      fix z assume "z \<in> set (List.map_filter f ks)"
      then obtain x where x: "x \<in> set ks" "f x = Some z" by (auto simp: set_map_filter)
      with Cons.prems have "k < x" by simp
      with fk [OF Some] fk [OF x(2)] show "fst y < fst z" by simp
    qed
    with Some ih show ?thesis by simp
  qed
qed

lemma set_candidates: "set (candidates s) = {c. isCandidate s c}"
  by (auto simp: candidates_def set_sort_by set_map_filter isCandidate_def split: option.splits if_splits)

lemma candidates_lex:
  "sorted_wrt (\<lambda>a b. snd a < snd b \<or> (snd a = snd b \<and> fst a < fst b)) (candidates s)"
  unfolding candidates_def
  by (intro sort_by_lex map_filter_fst_sorted) (auto split: option.splits if_splits)

lemma find_first:
  assumes "sorted_wrt R xs" "find P xs = Some x"
  shows "x \<in> set xs \<and> P x \<and> (\<forall>y \<in> set xs. P y \<longrightarrow> y = x \<or> R x y)"
  using assms
proof (induction xs)
  case Nil
  then show ?case by simp
next
  case (Cons a xs)
  then show ?case by (cases "P a") auto
qed

lemma last_greatest:
  assumes "sorted_wrt R xs" "xs \<noteq> []"
  shows "last xs \<in> set xs \<and> (\<forall>y \<in> set xs. y = last xs \<or> R y (last xs))"
  using assms
proof (induction xs)
  case Nil
  then show ?case by simp
next
  case (Cons a xs)
  then show ?case by (cases "xs = []") auto
qed

lemma getNextSignal_None: "getNextSignal s = None \<longleftrightarrow> candidates s = []"
  by (auto simp: getNextSignal_def Let_def find_None_iff split: option.splits)

lemma getNextSignal_Some:
  assumes "getNextSignal s = Some k"
  shows "\<exists>n. isCandidate s (k, n)
     \<and> (currentIndex s \<le> n + 1 \<longrightarrow>
          (\<forall>j m. isCandidate s (j, m) \<and> currentIndex s \<le> m + 1 \<longrightarrow> n < m \<or> (n = m \<and> k \<le> j)))
     \<and> (n + 1 < currentIndex s \<longrightarrow>
          (\<forall>j m. isCandidate s (j, m) \<longrightarrow> m + 1 < currentIndex s \<and> (m < n \<or> (m = n \<and> j \<le> k))))"
proof (cases "find (\<lambda>c. currentIndex s \<le> snd c + 1) (candidates s)")
  case (Some c)
  with assms have k: "k = fst c" by (simp add: getNextSignal_def)
  from find_first [OF candidates_lex Some]
  have c: "c \<in> set (candidates s)" "currentIndex s \<le> snd c + 1"
    and m: "\<forall>y \<in> set (candidates s). currentIndex s \<le> snd y + 1 \<longrightarrow>
              y = c \<or> snd c < snd y \<or> (snd c = snd y \<and> fst c < fst y)"
    by auto
  have "isCandidate s (k, snd c)" using c k by (simp add: set_candidates)
  moreover have "\<forall>j m. isCandidate s (j, m) \<and> currentIndex s \<le> m + 1 \<longrightarrow> snd c < m \<or> (snd c = m \<and> k \<le> j)"
    using m k by (fastforce simp: set_candidates)
  ultimately show ?thesis using c by (intro exI [of _ "snd c"]) auto
next
  case None
  with assms have ne: "candidates s \<noteq> []" and k: "k = fst (last (candidates s))"
    by (auto simp: getNextSignal_def Let_def split: if_splits)
  from last_greatest [OF candidates_lex ne]
  have l: "last (candidates s) \<in> set (candidates s)"
    and g: "\<forall>y \<in> set (candidates s). y = last (candidates s)
         \<or> snd y < snd (last (candidates s)) \<or> (snd y = snd (last (candidates s)) \<and> fst y < fst (last (candidates s)))"
    by auto
  from None have far: "\<forall>y \<in> set (candidates s). snd y + 1 < currentIndex s"
    by (fastforce simp: find_None_iff not_le)
  have "isCandidate s (k, snd (last (candidates s)))" using l k by (simp add: set_candidates)
  moreover have "\<forall>j m. isCandidate s (j, m) \<longrightarrow> m + 1 < currentIndex s
      \<and> (m < snd (last (candidates s)) \<or> (m = snd (last (candidates s)) \<and> j \<le> k))"
  proof (intro allI impI)
    fix j m assume "isCandidate s (j, m)"
    then have in_c: "(j, m) \<in> set (candidates s)" by (simp add: set_candidates)
    from far in_c have 1: "m + 1 < currentIndex s" by fastforce
    from g in_c have "(j, m) = last (candidates s)
         \<or> m < snd (last (candidates s)) \<or> (m = snd (last (candidates s)) \<and> j < k)"
      unfolding k by fastforce
    then have 2: "m < snd (last (candidates s)) \<or> (m = snd (last (candidates s)) \<and> j \<le> k)"
      using k by (metis fst_conv snd_conv order_refl less_imp_le)
    from 1 2 show "m + 1 < currentIndex s
      \<and> (m < snd (last (candidates s)) \<or> (m = snd (last (candidates s)) \<and> j \<le> k))" by simp
  qed
  ultimately show ?thesis using far l by (intro exI [of _ "snd (last (candidates s))"]) auto
qed


subsection \<open>What a tick does to the tracked signal\<close>

lemma signals_handleAdvance:
  "signalRuntime (handleAdvanceDetectionFor k d s)
     = (signalRuntime s)[k := advanceSig d (signalRuntime s ! k)]"
  by (simp add: handleAdvanceDetectionFor_def advanceSig_def Let_def setters split: option.splits)

lemma signals_handleOverride:
  "signalRuntime (handleSignalOverrideFor k d s)
     = (signalRuntime s)[k := overrideSig d (signalRuntime s ! k)]"
  by (cases "k < length (signalRuntime s)")
     (simp_all add: handleSignalOverrideFor_def overrideSig_def Let_def setters
        list_update_beyond not_less)

lemma signals_markCrossed:
  "signalRuntime (markCrossed k s)
     = (signalRuntime s)[k := (signalRuntime s ! k)\<lparr>passed := True, overrideActive := False, state := NORMAL\<rparr>]"
  by (cases "k < length (signalRuntime s)")
     (simp_all add: markCrossed_def setters list_update_beyond not_less split: option.splits)

lemma signals_handleAfterCrossing:
  "signalRuntime (handleAfterCrossingFor k d s)
     = (signalRuntime s)[k := crossingSig s d (signalRuntime s ! k)]"
proof (cases "k < length (signalRuntime s)")
  case False
  then show ?thesis
    by (simp add: handleAfterCrossingFor_def Let_def signals_markCrossed upd_signal_def
        list_update_beyond not_less split: option.splits)
next
  case True
  show ?thesis
  proof (cases "passed (signalRuntime s ! k)")
    case True
    then show ?thesis by (simp add: handleAfterCrossingFor_def crossingSig_def)
  next
    case np: False
    show ?thesis
    proof (cases "lastDistance (signalRuntime s ! k)")
      case None
      with np show ?thesis
        by (simp add: handleAfterCrossingFor_def crossingSig_def crossingFires_def upd_signal_def)
    next
      case (Some lastD)
      show ?thesis
      proof (cases "crossingFires s d (signalRuntime s ! k)")
        case f: True
        with np Some True show ?thesis
          by (auto simp: handleAfterCrossingFor_def crossingSig_def crossingFires_def Let_def
              signals_markCrossed upd_signal_def)
      next
        case f: False
        with np Some True show ?thesis
          by (auto simp: handleAfterCrossingFor_def crossingSig_def crossingFires_def Let_def
              signals_markCrossed upd_signal_def)
      qed
    qed
  qed
qed


lemma sig_frame:
  "sid (minSig d g) = sid g" "sid (advanceSig d g) = sid g" "sid (overrideSig d g) = sid g"
  "sid (crossingSig s d g) = sid g"
  "location (minSig d g) = location g" "location (advanceSig d g) = location g"
  "location (overrideSig d g) = location g" "location (crossingSig s d g) = location g"
  "nearestIndex (minSig d g) = nearestIndex g" "nearestIndex (advanceSig d g) = nearestIndex g"
  "nearestIndex (overrideSig d g) = nearestIndex g" "nearestIndex (crossingSig s d g) = nearestIndex g"
  by (simp_all add: minSig_def advanceSig_def overrideSig_def crossingSig_def)

lemma crossingFires_cong:
  "currentIndex s' = currentIndex s \<Longrightarrow> segmentProgress s' = segmentProgress s \<Longrightarrow>
     crossingFires s' d g = crossingFires s d g"
proof -
  assume "currentIndex s' = currentIndex s" "segmentProgress s' = segmentProgress s"
  then have "passedIndex g s' = passedIndex g s" by (simp add: passedIndex_def split: option.splits)
  then show ?thesis by (simp add: crossingFires_def split: option.splits)
qed

lemma crossingSig_cong:
  "currentIndex s' = currentIndex s \<Longrightarrow> segmentProgress s' = segmentProgress s \<Longrightarrow>
     crossingSig s' d g = crossingSig s d g"
  by (simp add: crossingSig_def crossingFires_cong [of s' s])

lemma index_handlers:
  "currentIndex (handleAdvanceDetectionFor k d s) = currentIndex s"
  "segmentProgress (handleAdvanceDetectionFor k d s) = segmentProgress s"
  "currentIndex (handleSignalOverrideFor k d s) = currentIndex s"
  "segmentProgress (handleSignalOverrideFor k d s) = segmentProgress s"
  using session_handleAdvance [of k d s] session_handleOverride [of k d s]
  by (simp_all add: session_def)

lemma signals_trackSignal:
  assumes "k < length (signalRuntime s)"
  shows "signalRuntime (trackSignal k s)
     = (signalRuntime s)[k := signalTick s (distanceKm (ambulancePos s) (location (signalRuntime s ! k)))
                               (signalRuntime s ! k)]"
proof -
  define d where "d = distanceKm (ambulancePos s) (location (signalRuntime s ! k))"
  define s2 where "s2 = (setDistanceUI (Some d)
      (if less_min d (minDistance (signalRuntime s ! k))
       then upd_signal k (\<lambda>g. g\<lparr>minDistance := Km d\<rparr>) s else s))
        \<lparr>signalIdUI := sid (signalRuntime s ! k), signalModeUI := state (signalRuntime s ! k)\<rparr>"
  have t: "trackSignal k s
      = handleAfterCrossingFor k d (handleSignalOverrideFor k d (handleAdvanceDetectionFor k d s2))"
    by (simp add: trackSignal_def Let_def d_def s2_def)
  have r2: "signalRuntime s2 = (signalRuntime s)[k := minSig d (signalRuntime s ! k)]"
    by (simp add: s2_def minSig_def setters)
  have i2: "currentIndex s2 = currentIndex s" "segmentProgress s2 = segmentProgress s"
    by (simp_all add: s2_def setters)
  have c: "crossingSig (handleSignalOverrideFor k d (handleAdvanceDetectionFor k d s2)) d
      = crossingSig s d"
    by (intro ext crossingSig_cong) (simp_all add: index_handlers i2)
  show ?thesis
    unfolding t d_def [symmetric]
    using assms
    by (simp add: signals_handleAfterCrossing signals_handleOverride signals_handleAdvance r2 c
        signalTick_def)
qed

lemma log_handleAdvance:
  "eventLog (handleAdvanceDetectionFor k d s)
     = (if \<not> advanceTriggered (signalRuntime s ! k) \<and> d \<le> ADVANCE_DETECTION_KM
        then [EvAdvance (sid (signalRuntime s ! k))] else []) @ eventLog s"
  by (simp add: handleAdvanceDetectionFor_def Let_def setters split: option.splits)

lemma log_handleOverride:
  "eventLog (handleSignalOverrideFor k d s)
     = (if \<not> overrideActive (signalRuntime s ! k) \<and> d \<le> OVERRIDE_START_KM
        then [EvOverrideOn (sid (signalRuntime s ! k))] else []) @ eventLog s"
  by (simp add: handleSignalOverrideFor_def Let_def setters)

lemma log_markCrossed:
  "eventLog (markCrossed k s) = EvCrossed (sid (signalRuntime s ! k)) # eventLog s"
  by (simp add: markCrossed_def setters split: option.splits)

lemma log_handleAfterCrossing:
  "eventLog (handleAfterCrossingFor k d s)
     = (if crossingFires s d (signalRuntime s ! k)
        then [EvCrossed (sid (signalRuntime s ! k))] else []) @ eventLog s"
proof (cases "passed (signalRuntime s ! k)")
  case True
  then show ?thesis by (simp add: handleAfterCrossingFor_def crossingFires_def)
next
  case np: False
  show ?thesis
  proof (cases "lastDistance (signalRuntime s ! k)")
    case None
    with np show ?thesis
      by (simp add: handleAfterCrossingFor_def crossingFires_def upd_signal_def)
  next
    case (Some lastD)
    show ?thesis
    proof (cases "crossingFires s d (signalRuntime s ! k)")
      case True
      with np Some show ?thesis
        by (auto simp: handleAfterCrossingFor_def crossingFires_def Let_def
            log_markCrossed upd_signal_def)
    next
      case False
      with np Some show ?thesis
        by (auto simp: handleAfterCrossingFor_def crossingFires_def Let_def
            log_markCrossed upd_signal_def)
    qed
  qed
qed

lemma log_trackSignal:
  assumes "k < length (signalRuntime s)"
  shows "eventLog (trackSignal k s)
     = (let g = signalRuntime s ! k; d = distanceKm (ambulancePos s) (location g)
        in (if crossingFires s d (overrideSig d (advanceSig d (minSig d g)))
            then [EvCrossed (sid g)] else [])
           @ (if \<not> overrideActive g \<and> d \<le> OVERRIDE_START_KM then [EvOverrideOn (sid g)] else [])
           @ (if \<not> advanceTriggered g \<and> d \<le> ADVANCE_DETECTION_KM then [EvAdvance (sid g)] else [])
           @ eventLog s)"
proof -
  define d where "d = distanceKm (ambulancePos s) (location (signalRuntime s ! k))"
  define s2 where "s2 = (setDistanceUI (Some d)
      (if less_min d (minDistance (signalRuntime s ! k))
       then upd_signal k (\<lambda>g. g\<lparr>minDistance := Km d\<rparr>) s else s))
        \<lparr>signalIdUI := sid (signalRuntime s ! k), signalModeUI := state (signalRuntime s ! k)\<rparr>"
  have t: "trackSignal k s
      = handleAfterCrossingFor k d (handleSignalOverrideFor k d (handleAdvanceDetectionFor k d s2))"
    by (simp add: trackSignal_def Let_def d_def s2_def)
  have r2: "signalRuntime s2 = (signalRuntime s)[k := minSig d (signalRuntime s ! k)]"
    by (simp add: s2_def minSig_def setters)
  have l2: "eventLog s2 = eventLog s" by (simp add: s2_def setters)
  have i2: "currentIndex s2 = currentIndex s" "segmentProgress s2 = segmentProgress s"
    by (simp_all add: s2_def setters)
  have c: "crossingFires (handleSignalOverrideFor k d (handleAdvanceDetectionFor k d s2)) d
      = crossingFires s d"
    by (intro ext crossingFires_cong) (simp_all add: index_handlers i2)
  have m: "overrideActive (advanceSig d (minSig d g)) = overrideActive g"
    "advanceTriggered (minSig d g) = advanceTriggered g" for g
    by (simp_all add: advanceSig_def minSig_def)
  show ?thesis
    unfolding t Let_def d_def [symmetric]
    using assms
    by (simp add: log_handleAfterCrossing log_handleOverride log_handleAdvance
        signals_handleOverride signals_handleAdvance r2 l2 c m sig_frame)
qed


lemma stepPosition_frame:
  "signalRuntime (stepPosition cs s) = signalRuntime s" "eventLog (stepPosition cs s) = eventLog s"
  by (simp_all add: stepPosition_def Let_def)

lemma driveTick_tracking:
  assumes "isDriving s" "selectedRouteId s = Some r"
    "currentIndex s < length (coords (ROUTES r)) - 1"
    "getNextSignal (stepPosition (coords (ROUTES r)) s) = Some k"
  shows "driveTick s = trackSignal k (stepPosition (coords (ROUTES r)) s)"
  using assms by (simp add: driveTick_def Let_def)

lemma driveTick_cases:
  "(signalRuntime (driveTick s) = signalRuntime s \<and> eventLog (driveTick s) = eventLog s)
   \<or> (\<exists>k s1. signalRuntime s1 = signalRuntime s \<and> eventLog s1 = eventLog s
         \<and> getNextSignal s1 = Some k \<and> driveTick s = trackSignal k s1)"
proof (cases "selectedRouteId s")
  case None
  then show ?thesis by (simp add: driveTick_def)
next
  case (Some r)
  show ?thesis
  proof (cases "isDriving s \<and> currentIndex s < length (coords (ROUTES r)) - 1")
    case False
    with Some show ?thesis by (auto simp: driveTick_def Let_def stopDriveTimer_def)
  next
    case True
    show ?thesis
    proof (cases "getNextSignal (stepPosition (coords (ROUTES r)) s)")
      case None
      with Some True show ?thesis
        by (simp add: driveTick_def Let_def setDistanceUI_def stepPosition_frame)
    next
      case (Some k)
      with \<open>selectedRouteId s = Some r\<close> True
      have "driveTick s = trackSignal k (stepPosition (coords (ROUTES r)) s)"
        by (simp add: driveTick_tracking)
      with Some show ?thesis
        using stepPosition_frame [of "coords (ROUTES r)" s] by blast
    qed
  qed
qed

lemma getNextSignal_candidate:
  "getNextSignal s = Some k \<Longrightarrow>
     k < length (signalRuntime s) \<and> \<not> passed (signalRuntime s ! k)
     \<and> nearestIndex (signalRuntime s ! k) \<noteq> None"
  using getNextSignal_Some [of s k] by (auto simp: isCandidate_def)

lemma signalTick_fields:
  "sid (signalTick s d g) = sid g"
  "location (signalTick s d g) = location g"
  "nearestIndex (signalTick s d g) = nearestIndex g"
  "advanceTriggered (signalTick s d g) = (advanceTriggered g \<or> d \<le> ADVANCE_DETECTION_KM)"
  "\<not> passed g \<Longrightarrow> lastDistance (signalTick s d g) = Some d"
  by (simp_all add: signalTick_def crossingSig_def overrideSig_def advanceSig_def minSig_def)

subsection \<open>The selection of the tracked signal\<close>

lemma length_trackSignal:
  "k < length (signalRuntime s) \<Longrightarrow> length (signalRuntime (trackSignal k s)) = length (signalRuntime s)"
  by (simp add: signals_trackSignal)

lemma getNextSignal_None_all:
  "getNextSignal s = None \<longleftrightarrow>
     (\<forall>j < length (signalRuntime s). passed (signalRuntime s ! j) \<or> nearestIndex (signalRuntime s ! j) = None)"
proof -
  have "candidates s = [] \<longleftrightarrow> {c. isCandidate s c} = {}"
    using set_candidates [of s] by (metis set_empty)
  also have "\<dots> \<longleftrightarrow> (\<forall>j < length (signalRuntime s). passed (signalRuntime s ! j) \<or> nearestIndex (signalRuntime s ! j) = None)"
    by (auto simp: isCandidate_def)
  finally show ?thesis by (simp add: getNextSignal_None)
qed

text \<open>
  What \<^verbatim>\<open>getNextSignal\<close> returns, for every state. No signal is selected exactly when
  every signal is passed or has no nearest index. A selected signal is a candidate (not
  passed, with a nearest index \<open>n\<close>). If it is at most one waypoint behind the ambulance
  (\<open>currentIndex \<le> n + 1\<close>), it has the least nearest index of the candidates that are,
  and is the first of them in the signal list among equals; otherwise every candidate is
  more than one waypoint behind and it has the greatest nearest index, the last in the
  signal list among equals. A tick of a running drive that moves the ambulance changes no
  signal and writes no log line when no signal is selected, and otherwise is
  \<open>trackSignal\<close> on the selected signal and leaves every other signal as it was.
\<close>

theorem next_signal_selection:
  "(getNextSignal s = None \<longleftrightarrow>
      (\<forall>j < length (signalRuntime s).
          passed (signalRuntime s ! j) \<or> nearestIndex (signalRuntime s ! j) = None))
   \<and> (getNextSignal s = Some k \<longrightarrow>
        (\<exists>n. isCandidate s (k, n)
           \<and> (currentIndex s \<le> n + 1 \<longrightarrow>
                (\<forall>j m. isCandidate s (j, m) \<and> currentIndex s \<le> m + 1 \<longrightarrow>
                         n < m \<or> (n = m \<and> k \<le> j)))
           \<and> (n + 1 < currentIndex s \<longrightarrow>
                (\<forall>j m. isCandidate s (j, m) \<longrightarrow>
                         m + 1 < currentIndex s \<and> (m < n \<or> (m = n \<and> j \<le> k))))))
   \<and> (isDriving s \<and> selectedRouteId s = Some r
        \<and> currentIndex s < length (coords (ROUTES r)) - 1 \<longrightarrow>
        (getNextSignal (stepPosition (coords (ROUTES r)) s) = None \<longrightarrow>
           signalRuntime (driveTick s) = signalRuntime s \<and> eventLog (driveTick s) = eventLog s)
        \<and> (getNextSignal (stepPosition (coords (ROUTES r)) s) = Some k \<longrightarrow>
             driveTick s = trackSignal k (stepPosition (coords (ROUTES r)) s)
             \<and> length (signalRuntime (driveTick s)) = length (signalRuntime s)
             \<and> (\<forall>j. j \<noteq> k \<longrightarrow> signalRuntime (driveTick s) ! j = signalRuntime s ! j)))"
proof (intro conjI impI)
  show "getNextSignal s = None \<longleftrightarrow>
      (\<forall>j < length (signalRuntime s).
          passed (signalRuntime s ! j) \<or> nearestIndex (signalRuntime s ! j) = None)"
    by (rule getNextSignal_None_all)
next
  assume "getNextSignal s = Some k"
  then show "\<exists>n. isCandidate s (k, n)
           \<and> (currentIndex s \<le> n + 1 \<longrightarrow>
                (\<forall>j m. isCandidate s (j, m) \<and> currentIndex s \<le> m + 1 \<longrightarrow>
                         n < m \<or> (n = m \<and> k \<le> j)))
           \<and> (n + 1 < currentIndex s \<longrightarrow>
                (\<forall>j m. isCandidate s (j, m) \<longrightarrow>
                         m + 1 < currentIndex s \<and> (m < n \<or> (m = n \<and> j \<le> k))))"
    by (rule getNextSignal_Some)
next
  assume a: "isDriving s \<and> selectedRouteId s = Some r
        \<and> currentIndex s < length (coords (ROUTES r)) - 1"
    and n: "getNextSignal (stepPosition (coords (ROUTES r)) s) = None"
  then show "signalRuntime (driveTick s) = signalRuntime s" "eventLog (driveTick s) = eventLog s"
    by (simp_all add: driveTick_def Let_def setDistanceUI_def stepPosition_frame)
next
  assume a: "isDriving s \<and> selectedRouteId s = Some r
        \<and> currentIndex s < length (coords (ROUTES r)) - 1"
    and k: "getNextSignal (stepPosition (coords (ROUTES r)) s) = Some k"
  from a k show t: "driveTick s = trackSignal k (stepPosition (coords (ROUTES r)) s)"
    by (simp add: driveTick_tracking)
  from getNextSignal_candidate [OF k]
  have kl: "k < length (signalRuntime (stepPosition (coords (ROUTES r)) s))" by simp
  from signals_trackSignal [OF kl]
  show "length (signalRuntime (driveTick s)) = length (signalRuntime s)"
    "\<forall>j. j \<noteq> k \<longrightarrow> signalRuntime (driveTick s) ! j = signalRuntime s ! j"
    unfolding t by (simp_all add: stepPosition_frame)
qed

text \<open>
  Claim C3, at two states of a drive. In \<open>alternativeState\<close> the ambulance is at waypoint
  2 of the alternative route; S1, not passed, has the nearest index 1, behind the
  ambulance, and S2, not passed, has the nearest index 3, ahead of it. The claim selects
  S2, the candidate closest to or ahead of the ambulance, and so does the comment of the
  function (\<^verbatim>\<open>first one not passed and (nearestIndex is ahead or current)\<close>); the code
  returns S1, because its test is \<open>currentIndex \<le> nearestIndex + 1\<close>. In
  \<open>atSixthWaypoint\<close> the ambulance is at waypoint 6 of the fastest route, S2 (nearest
  index 5) and S3 (nearest index 6) are not passed: the claim selects S3, the code S2.
\<close>

theorem next_signal_one_behind:
  "getNextSignal atSixthWaypoint = Some 1
   \<and> nearestIndex (signalRuntime atSixthWaypoint ! 1) = Some 5
   \<and> currentIndex atSixthWaypoint = 6
   \<and> \<not> passed (signalRuntime atSixthWaypoint ! 2)
   \<and> nearestIndex (signalRuntime atSixthWaypoint ! 2) = Some 6
   \<and> spec_getNextSignal atSixthWaypoint = Some 2
   \<and> getNextSignal alternativeState = Some 0
   \<and> nearestIndex (signalRuntime alternativeState ! 0) = Some 1
   \<and> currentIndex alternativeState = 2
   \<and> \<not> passed (signalRuntime alternativeState ! 1)
   \<and> nearestIndex (signalRuntime alternativeState ! 1) = Some 3
   \<and> spec_getNextSignal alternativeState = Some 1"
  by (simp add: getNextSignal_def spec_getNextSignal_def candidates_def atSixthWaypoint_def
      alternativeState_def loadedState_def Let_def sort_by_def
      upt_rec [of 0] upt_rec [of 1] upt_rec [of 2] upt_rec [of 3])

text \<open>
  The selection on two example states: the signal selected at \<open>atSixthWaypoint\<close> is a
  candidate, and a tick of \<open>crossingState\<close>, which tracks S1, leaves S2 and S3 alone.
\<close>

theorem next_signal_selection_witness:
  "getNextSignal atSixthWaypoint = Some 1
   \<and> \<not> passed (signalRuntime atSixthWaypoint ! 1)
   \<and> nearestIndex (signalRuntime atSixthWaypoint ! 1) = Some 5
   \<and> isDriving crossingState \<and> selectedRouteId crossingState = Some shortest
   \<and> currentIndex crossingState < length (coords (ROUTES shortest)) - 1
   \<and> getNextSignal (stepPosition (coords (ROUTES shortest)) crossingState) = Some 0
   \<and> signalRuntime (driveTick crossingState) ! 1 = signalRuntime crossingState ! 1
   \<and> signalRuntime (driveTick crossingState) ! 2 = signalRuntime crossingState ! 2"
proof -
  have g: "getNextSignal atSixthWaypoint = Some 1"
    by (simp add: getNextSignal_def candidates_def atSixthWaypoint_def
      loadedState_def Let_def sort_by_def
      upt_rec [of 0] upt_rec [of 1] upt_rec [of 2] upt_rec [of 3])
  have n5: "nearestIndex (signalRuntime atSixthWaypoint ! 1) = Some 5"
    by (simp add: atSixthWaypoint_def loadedState_def)
  have c: "isDriving crossingState \<and> selectedRouteId crossingState = Some shortest
        \<and> currentIndex crossingState < length (coords (ROUTES shortest)) - 1"
    by (simp add: crossingState_def loadedState_def ROUTES_def)
  have cn: "getNextSignal (stepPosition (coords (ROUTES shortest)) crossingState) = Some 0"
    by (simp add: getNextSignal_def candidates_def stepPosition_def crossingState_def
        loadedState_def Let_def sort_by_def STEP_def TICK_MS_def SEGMENT_TIME_MS_def
        upt_rec [of 0] upt_rec [of 1] upt_rec [of 2] upt_rec [of 3])
  from next_signal_selection [of atSixthWaypoint 1] g
  have np: "\<not> passed (signalRuntime atSixthWaypoint ! 1)"
    by (auto simp: isCandidate_def)
  from next_signal_selection [of crossingState 0 shortest] c cn
  have fr: "\<forall>j. j \<noteq> 0 \<longrightarrow>
      signalRuntime (driveTick crossingState) ! j = signalRuntime crossingState ! j"
    by blast
  have others: "signalRuntime (driveTick crossingState) ! 1 = signalRuntime crossingState ! 1"
    "signalRuntime (driveTick crossingState) ! 2 = signalRuntime crossingState ! 2"
    using fr [rule_format, of 1] fr [rule_format, of 2] by simp_all
  from g np n5 c cn others show ?thesis by simp
qed

subsection \<open>Crossing\<close>

text \<open>
  An override that is on has a last distance on record: this holds after a reset and
  after a drive start, and every tick and every route selection keeps it.
\<close>

lemma override_recorded_driveTick:
  assumes "override_recorded s"
  shows "override_recorded (driveTick s)"
proof -
  from driveTick_cases [of s] show ?thesis
  proof
    assume "signalRuntime (driveTick s) = signalRuntime s \<and> eventLog (driveTick s) = eventLog s"
    with assms show ?thesis by (simp add: override_recorded_def)
  next
    assume "\<exists>k s1. signalRuntime s1 = signalRuntime s \<and> eventLog s1 = eventLog s
         \<and> getNextSignal s1 = Some k \<and> driveTick s = trackSignal k s1"
    then obtain k s1 where s1: "signalRuntime s1 = signalRuntime s"
      and k: "getNextSignal s1 = Some k" and t: "driveTick s = trackSignal k s1" by blast
    from getNextSignal_candidate [OF k]
    have kl: "k < length (signalRuntime s1)" and np: "\<not> passed (signalRuntime s1 ! k)" by auto
    have "signalRuntime (driveTick s) = (signalRuntime s)[k :=
        signalTick s1 (distanceKm (ambulancePos s1) (location (signalRuntime s ! k))) (signalRuntime s ! k)]"
      unfolding t using signals_trackSignal [OF kl] by (simp add: s1)
    moreover have "lastDistance (signalTick s1 (distanceKm (ambulancePos s1) (location (signalRuntime s ! k)))
        (signalRuntime s ! k)) \<noteq> None"
      using np by (simp add: signalTick_fields s1)
    ultimately show ?thesis
      using assms unfolding override_recorded_def list_all_iff
      by (auto dest!: subsetD [OF set_update_subset_insert])
  qed
qed

lemma override_recorded_reset: "override_recorded (resetDriveState s)"
  by (simp add: override_recorded_def resetDriveState_signals list_all_iff initialSignal_def)


lemma override_recorded_start_fresh:
  "selectedRouteId s = Some r \<Longrightarrow> \<not> isDriving s \<Longrightarrow> override_recorded (startEmergencyDrive s)"
  by (simp add: override_recorded_def startEmergencyDrive_started(9) list_all_iff)

lemma override_recorded_ticks: "override_recorded s \<Longrightarrow> override_recorded (ticks n s)"
  by (induction n arbitrary: s) (simp_all add: override_recorded_driveTick)

lemma override_recorded_setSelectedRoute:
  "override_recorded s \<Longrightarrow> override_recorded (setSelectedRoute r s)"
  by (simp add: override_recorded_def setSelectedRoute_def setRouteHighlight_def Let_def)








subsection \<open>Advance detection\<close>

lemma advance_logged_start:
  assumes "distinct (map sid (signalRuntime s))" "selectedRouteId s = Some r" "\<not> isDriving s"
  shows "advance_logged (startEmergencyDrive s)"
  using assms(1)
  by (simp add: advance_logged_def startEmergencyDrive_started [OF assms(2,3)] list_all_iff comp_def)

lemma count_advance_trackSignal:
  assumes "k < length (signalRuntime s)"
  shows "count_list (eventLog (trackSignal k s)) (EvAdvance x)
     = count_list (eventLog s) (EvAdvance x)
       + (if x = sid (signalRuntime s ! k) \<and> \<not> advanceTriggered (signalRuntime s ! k)
             \<and> distanceKm (ambulancePos s) (location (signalRuntime s ! k)) \<le> ADVANCE_DETECTION_KM
          then 1 else 0)"
  using log_trackSignal [OF assms] by (simp add: Let_def)

lemma advance_logged_trackSignal:
  assumes "advance_logged s" "k < length (signalRuntime s)"
  shows "advance_logged (trackSignal k s)"
proof -
  let ?d = "distanceKm (ambulancePos s) (location (signalRuntime s ! k))"
  let ?g' = "signalTick s ?d (signalRuntime s ! k)"
  have sg: "signalRuntime (trackSignal k s) = (signalRuntime s)[k := ?g']"
    by (rule signals_trackSignal [OF assms(2)])
  have ids: "map sid (signalRuntime (trackSignal k s)) = map sid (signalRuntime s)"
    unfolding sg using assms(2) by (simp add: map_update signalTick_fields list_update_same_conv)
  from assms(1) have dist: "distinct (map sid (signalRuntime s))"
    and cnt: "\<And>j. j < length (signalRuntime s) \<Longrightarrow>
        count_list (eventLog s) (EvAdvance (sid (signalRuntime s ! j)))
          = (if advanceTriggered (signalRuntime s ! j) then 1 else 0)"
    by (simp_all add: advance_logged_def list_all_length)
  have "count_list (eventLog (trackSignal k s)) (EvAdvance (sid (signalRuntime (trackSignal k s) ! j)))
          = (if advanceTriggered (signalRuntime (trackSignal k s) ! j) then 1 else 0)"
    if j: "j < length (signalRuntime s)" for j
  proof (cases "j = k")
    case True
    then show ?thesis
      using cnt [OF assms(2)] assms(2)
      by (simp add: sg signalTick_fields count_advance_trackSignal)
  next
    case False
    with dist j assms(2) have "sid (signalRuntime s ! j) \<noteq> sid (signalRuntime s ! k)"
      using nth_eq_iff_index_eq [of "map sid (signalRuntime s)" j k] by simp
    with False show ?thesis
      using cnt [OF j] assms(2)
      by (simp add: sg count_advance_trackSignal)
  qed
  moreover have "length (signalRuntime (trackSignal k s)) = length (signalRuntime s)"
    by (simp add: sg)
  ultimately show ?thesis
    using dist by (simp add: advance_logged_def ids list_all_length)
qed

lemma advance_logged_driveTick:
  assumes "advance_logged s"
  shows "advance_logged (driveTick s)"
proof -
  from driveTick_cases [of s] show ?thesis
  proof
    assume "signalRuntime (driveTick s) = signalRuntime s \<and> eventLog (driveTick s) = eventLog s"
    with assms show ?thesis by (simp add: advance_logged_def)
  next
    assume "\<exists>k s1. signalRuntime s1 = signalRuntime s \<and> eventLog s1 = eventLog s
         \<and> getNextSignal s1 = Some k \<and> driveTick s = trackSignal k s1"
    then obtain k s1 where s1: "signalRuntime s1 = signalRuntime s" "eventLog s1 = eventLog s"
      and k: "getNextSignal s1 = Some k" and t: "driveTick s = trackSignal k s1" by blast
    from assms s1 have "advance_logged s1" by (simp add: advance_logged_def)
    with getNextSignal_candidate [OF k] show ?thesis
      unfolding t by (intro advance_logged_trackSignal) simp_all
  qed
qed

lemma advance_logged_ticks: "advance_logged s \<Longrightarrow> advance_logged (ticks n s)"
  by (induction n arbitrary: s) (simp_all add: advance_logged_driveTick)

lemma sids_driveTick: "map sid (signalRuntime (driveTick s)) = map sid (signalRuntime s)"
proof -
  from driveTick_cases [of s] show ?thesis
  proof
    assume "signalRuntime (driveTick s) = signalRuntime s \<and> eventLog (driveTick s) = eventLog s"
    then show ?thesis by simp
  next
    assume "\<exists>k s1. signalRuntime s1 = signalRuntime s \<and> eventLog s1 = eventLog s
         \<and> getNextSignal s1 = Some k \<and> driveTick s = trackSignal k s1"
    then obtain k s1 where s1: "signalRuntime s1 = signalRuntime s"
      and k: "getNextSignal s1 = Some k" and t: "driveTick s = trackSignal k s1" by blast
    from getNextSignal_candidate [OF k] have kl: "k < length (signalRuntime s1)" by simp
    show ?thesis
      unfolding t signals_trackSignal [OF kl] using kl
      by (simp add: map_update signalTick_fields list_update_same_conv s1)
  qed
qed

lemma sids_ticks: "map sid (signalRuntime (ticks n s)) = map sid (signalRuntime s)"
  by (induction n arbitrary: s) (simp_all add: sids_driveTick)

lemma passed_frozen_driveTick:
  assumes "advance_logged s" "j < length (signalRuntime s)" "passed (signalRuntime s ! j)"
  shows "signalRuntime (driveTick s) ! j = signalRuntime s ! j
     \<and> count_list (eventLog (driveTick s)) (EvAdvance (sid (signalRuntime s ! j)))
         = count_list (eventLog s) (EvAdvance (sid (signalRuntime s ! j)))"
proof -
  from driveTick_cases [of s] show ?thesis
  proof
    assume "signalRuntime (driveTick s) = signalRuntime s \<and> eventLog (driveTick s) = eventLog s"
    then show ?thesis by simp
  next
    assume "\<exists>k s1. signalRuntime s1 = signalRuntime s \<and> eventLog s1 = eventLog s
         \<and> getNextSignal s1 = Some k \<and> driveTick s = trackSignal k s1"
    then obtain k s1 where s1: "signalRuntime s1 = signalRuntime s" "eventLog s1 = eventLog s"
      and k: "getNextSignal s1 = Some k" and t: "driveTick s = trackSignal k s1" by blast
    from getNextSignal_candidate [OF k]
    have kl: "k < length (signalRuntime s)" and np: "\<not> passed (signalRuntime s ! k)"
      by (simp_all add: s1)
    from np assms(3) have jk: "j \<noteq> k" by auto
    from assms(1) have "distinct (map sid (signalRuntime s))" by (simp add: advance_logged_def)
    with jk assms(2) kl have ne: "sid (signalRuntime s ! j) \<noteq> sid (signalRuntime s ! k)"
      using nth_eq_iff_index_eq [of "map sid (signalRuntime s)" j k] by simp
    have kl1: "k < length (signalRuntime s1)" using kl by (simp add: s1)
    show ?thesis
      unfolding t using jk ne
      by (simp add: signals_trackSignal [OF kl1] count_advance_trackSignal [OF kl1] s1)
  qed
qed

lemma passed_frozen_ticks:
  assumes "advance_logged s" "j < length (signalRuntime s)" "passed (signalRuntime s ! j)"
  shows "signalRuntime (ticks n s) ! j = signalRuntime s ! j
     \<and> count_list (eventLog (ticks n s)) (EvAdvance (sid (signalRuntime s ! j)))
         = count_list (eventLog s) (EvAdvance (sid (signalRuntime s ! j)))"
  using assms
proof (induction n arbitrary: s)
  case 0
  then show ?case by simp
next
  case (Suc n)
  from passed_frozen_driveTick [OF Suc.prems]
  have f: "signalRuntime (driveTick s) ! j = signalRuntime s ! j"
    "count_list (eventLog (driveTick s)) (EvAdvance (sid (signalRuntime s ! j)))
         = count_list (eventLog s) (EvAdvance (sid (signalRuntime s ! j)))" by simp_all
  have l: "length (signalRuntime (driveTick s)) = length (signalRuntime s)"
    using arg_cong [OF sids_driveTick [of s], of length] by simp
  from Suc.IH [of "driveTick s"] advance_logged_driveTick [OF Suc.prems(1)] Suc.prems(2,3) f l
  show ?case by simp
qed

lemma advance_kept_driveTick:
  assumes "j < length (signalRuntime s)" "advanceTriggered (signalRuntime s ! j)"
  shows "advanceTriggered (signalRuntime (driveTick s) ! j)"
proof -
  from driveTick_cases [of s] show ?thesis
  proof
    assume "signalRuntime (driveTick s) = signalRuntime s \<and> eventLog (driveTick s) = eventLog s"
    with assms show ?thesis by simp
  next
    assume "\<exists>k s1. signalRuntime s1 = signalRuntime s \<and> eventLog s1 = eventLog s
         \<and> getNextSignal s1 = Some k \<and> driveTick s = trackSignal k s1"
    then obtain k s1 where s1: "signalRuntime s1 = signalRuntime s"
      and k: "getNextSignal s1 = Some k" and t: "driveTick s = trackSignal k s1" by blast
    from getNextSignal_candidate [OF k] have kl: "k < length (signalRuntime s1)" by simp
    show ?thesis
      unfolding t signals_trackSignal [OF kl] using assms kl
      by (cases "j = k") (simp_all add: signalTick_fields s1)
  qed
qed

lemma advance_flag_driveTick:
  assumes "isDriving s" "selectedRouteId s = Some r"
    "currentIndex s < length (coords (ROUTES r)) - 1" "j < length (signalRuntime s)"
  shows "advanceTriggered (signalRuntime (driveTick s) ! j)
     = (advanceTriggered (signalRuntime s ! j)
        \<or> (getNextSignal (stepPosition (coords (ROUTES r)) s) = Some j
            \<and> distanceKm (ambulancePos (stepPosition (coords (ROUTES r)) s))
                 (location (signalRuntime s ! j)) \<le> ADVANCE_DETECTION_KM))"
proof (cases "getNextSignal (stepPosition (coords (ROUTES r)) s)")
  case None
  with assms show ?thesis
    by (simp add: driveTick_def Let_def setDistanceUI_def stepPosition_frame)
next
  case (Some k)
  with assms have t: "driveTick s = trackSignal k (stepPosition (coords (ROUTES r)) s)"
    by (simp add: driveTick_tracking)
  from getNextSignal_candidate [OF Some]
  have kl: "k < length (signalRuntime (stepPosition (coords (ROUTES r)) s))" by simp
  show ?thesis
    unfolding t signals_trackSignal [OF kl] using assms(4) kl Some
    by (cases "j = k") (auto simp: signalTick_fields stepPosition_frame)
qed

lemma started_shortest:
  "isDriving startedShortest" "selectedRouteId startedShortest = Some shortest"
  "currentIndex startedShortest = 0" "segmentProgress startedShortest = 0"
  "length (signalRuntime startedShortest) = 3"
  "location (signalRuntime startedShortest ! 0) = (10.9558, 78.0748)"
  "location (signalRuntime startedShortest ! 1) = (10.9639, 78.0795)"
  "\<not> advanceTriggered (signalRuntime startedShortest ! 0)"
  "\<not> advanceTriggered (signalRuntime startedShortest ! 1)"
proof -
  have a: "selectedRouteId (setSelectedRoute shortest loadedState) = Some shortest"
    "\<not> isDriving (setSelectedRoute shortest loadedState)"
    "signalRuntime (setSelectedRoute shortest loadedState) = map initialSignal SIGNAL_DEFS"
    by (simp_all add: setSelectedRoute_def setRouteHighlight_def loadedState_def)
  show "isDriving startedShortest" "selectedRouteId startedShortest = Some shortest"
    "currentIndex startedShortest = 0" "segmentProgress startedShortest = 0"
    unfolding startedShortest_def by (simp_all add: startEmergencyDrive_started [OF a(1,2)])
  show "length (signalRuntime startedShortest) = 3"
    "location (signalRuntime startedShortest ! 0) = (10.9558, 78.0748)"
    "location (signalRuntime startedShortest ! 1) = (10.9639, 78.0795)"
    "\<not> advanceTriggered (signalRuntime startedShortest ! 0)"
    "\<not> advanceTriggered (signalRuntime startedShortest ! 1)"
    unfolding startedShortest_def startEmergencyDrive_started(9) [OF a(1,2)] a(3)
    by (simp_all add: SIGNAL_DEFS_def initialSignal_def)
qed

lemma untracked_in_crossingState:
  "isDriving crossingState \<and> selectedRouteId crossingState = Some shortest
   \<and> currentIndex crossingState < length (coords (ROUTES shortest)) - 1
   \<and> getNextSignal (stepPosition (coords (ROUTES shortest)) crossingState) = Some 0
   \<and> \<not> advanceTriggered (signalRuntime crossingState ! 1)
   \<and> distanceKm (ambulancePos crossingState) (location (signalRuntime crossingState ! 1)) \<le> 3.0
   \<and> distanceKm (ambulancePos (driveTick crossingState))
        (location (signalRuntime crossingState ! 1)) \<le> 3.0
   \<and> \<not> advanceTriggered (signalRuntime (driveTick crossingState) ! 1)
   \<and> count_list (eventLog (driveTick crossingState)) (EvAdvance ''S2'') = 0"
proof -
  have h: "isDriving crossingState" "selectedRouteId crossingState = Some shortest"
    "currentIndex crossingState < length (coords (ROUTES shortest)) - 1"
    "\<not> advanceTriggered (signalRuntime crossingState ! 1)"
    "1 < length (signalRuntime crossingState)"
    "sid (signalRuntime crossingState ! 0) = ''S1''"
    "count_list (eventLog crossingState) (EvAdvance ''S2'') = 0"
    "location (signalRuntime crossingState ! 1) = (10.9639, 78.0795)"
    "ambulancePos crossingState = interpolatePoint (10.9548, 78.0736) (10.9606, 78.0780) 0.58"
    by (simp_all add: crossingState_def loadedState_def ROUTES_def)
  have n: "getNextSignal (stepPosition (coords (ROUTES shortest)) crossingState) = Some 0"
    by (simp add: getNextSignal_def candidates_def stepPosition_def crossingState_def
        loadedState_def Let_def sort_by_def STEP_def TICK_MS_def SEGMENT_TIME_MS_def
        upt_rec [of 0] upt_rec [of 1] upt_rec [of 2] upt_rec [of 3])
  have t: "driveTick crossingState
      = trackSignal 0 (stepPosition (coords (ROUTES shortest)) crossingState)"
    using h(1-3) n by (rule driveTick_tracking)
  have kl: "0 < length (signalRuntime (stepPosition (coords (ROUTES shortest)) crossingState))"
    by (simp add: stepPosition_frame crossingState_def loadedState_def)
  have pos: "ambulancePos (driveTick crossingState)
      = interpolatePoint (10.9548, 78.0736) (10.9606, 78.0780) (0.58 + 1 / 21)"
  proof -
    have "session (driveTick crossingState)
        = (Some shortest, True, 1, 0.58 + 1 / 21,
           interpolatePoint (10.9548, 78.0736) (10.9606, 78.0780) (0.58 + 1 / 21))"
      unfolding session_driveTick
      by (simp add: session_def crossingState_def loadedState_def ROUTES_def STEP_def
          TICK_MS_def SEGMENT_TIME_MS_def)
    from session_fields [OF this] show ?thesis by simp
  qed
  have d0: "distanceKm (ambulancePos crossingState) (location (signalRuntime crossingState ! 1)) \<le> 3.0"
    unfolding h(8,9)
    using distanceKm_near [of "(10.9639, 78.0795)"
        "interpolatePoint (10.9548, 78.0736) (10.9606, 78.0780) 0.58"]
    by (simp add: interpolatePoint_def power2_eq_square)
  have d1: "distanceKm (ambulancePos (driveTick crossingState))
        (location (signalRuntime crossingState ! 1)) \<le> 3.0"
    unfolding h(8) pos
    using distanceKm_near [of "(10.9639, 78.0795)"
        "interpolatePoint (10.9548, 78.0736) (10.9606, 78.0780) (0.58 + 1 / 21)"]
    by (simp add: interpolatePoint_def power2_eq_square)
  have f: "\<not> advanceTriggered (signalRuntime (driveTick crossingState) ! 1)"
    unfolding t signals_trackSignal [OF kl] using h(4) by (simp add: stepPosition_frame)
  have c: "count_list (eventLog (driveTick crossingState)) (EvAdvance ''S2'') = 0"
    unfolding t count_advance_trackSignal [OF kl] using h(6,7) by (simp add: stepPosition_frame)
  from h(1-4) n d0 d1 f c show ?thesis by simp
qed

text \<open>
  Claim C4, as stated for every signal. On the first tick of a drive of the shortest
  route, started from the loaded page, S1 and S2 are both at most 3.0 km from the
  ambulance and neither flag is set, but after the tick the two flags are not both set:
  the rule is run for one signal only. On \<open>crossingState\<close>: S2 is at most 3.0 km from the
  ambulance before and after the tick and its flag is not set, but the tick tracks S1, so
  the flag of S2 stays unset and no detection line of S2 is written.
\<close>

theorem advance_not_for_untracked:
  "\<not> advanceTriggered (signalRuntime startedShortest ! 0)
   \<and> \<not> advanceTriggered (signalRuntime startedShortest ! 1)
   \<and> distanceKm (ambulancePos (driveTick startedShortest))
        (location (signalRuntime startedShortest ! 0)) \<le> 3.0
   \<and> distanceKm (ambulancePos (driveTick startedShortest))
        (location (signalRuntime startedShortest ! 1)) \<le> 3.0
   \<and> \<not> (advanceTriggered (signalRuntime (driveTick startedShortest) ! 0)
        \<and> advanceTriggered (signalRuntime (driveTick startedShortest) ! 1))
   \<and> isDriving crossingState \<and> selectedRouteId crossingState = Some shortest
   \<and> currentIndex crossingState < length (coords (ROUTES shortest)) - 1
   \<and> getNextSignal (stepPosition (coords (ROUTES shortest)) crossingState) = Some 0
   \<and> \<not> advanceTriggered (signalRuntime crossingState ! 1)
   \<and> distanceKm (ambulancePos crossingState) (location (signalRuntime crossingState ! 1)) \<le> 3.0
   \<and> distanceKm (ambulancePos (driveTick crossingState))
        (location (signalRuntime crossingState ! 1)) \<le> 3.0
   \<and> \<not> advanceTriggered (signalRuntime (driveTick crossingState) ! 1)
   \<and> count_list (eventLog (driveTick crossingState)) (EvAdvance ''S2'') = 0"
proof -
  note st = started_shortest
  have b: "currentIndex startedShortest < length (coords (ROUTES shortest)) - 1"
    by (simp add: st ROUTES_def)
  have pos: "ambulancePos (driveTick startedShortest)
      = interpolatePoint (10.9488, 78.0690) (10.9548, 78.0736) (1 / 21)"
  proof -
    have "session (driveTick startedShortest)
        = (Some shortest, True, 0, 1 / 21,
           interpolatePoint (10.9488, 78.0690) (10.9548, 78.0736) (1 / 21))"
      unfolding session_driveTick
      by (simp add: session_def st ROUTES_def STEP_def TICK_MS_def SEGMENT_TIME_MS_def)
    from session_fields [OF this] show ?thesis by simp
  qed
  have d0: "distanceKm (ambulancePos (driveTick startedShortest))
        (location (signalRuntime startedShortest ! 0)) \<le> 3.0"
    unfolding st pos
    using distanceKm_near [of "(10.9558, 78.0748)"
        "interpolatePoint (10.9488, 78.0690) (10.9548, 78.0736) (1 / 21)"]
    by (simp add: interpolatePoint_def power2_eq_square)
  have d1: "distanceKm (ambulancePos (driveTick startedShortest))
        (location (signalRuntime startedShortest ! 1)) \<le> 3.0"
    unfolding st pos
    using distanceKm_near [of "(10.9639, 78.0795)"
        "interpolatePoint (10.9488, 78.0690) (10.9548, 78.0736) (1 / 21)"]
    by (simp add: interpolatePoint_def power2_eq_square)
  have f0: "advanceTriggered (signalRuntime (driveTick startedShortest) ! 0) \<Longrightarrow>
      getNextSignal (stepPosition (coords (ROUTES shortest)) startedShortest) = Some 0"
    using advance_flag_driveTick [OF st(1,2) b, of 0] st(5,8) by simp
  have f1: "advanceTriggered (signalRuntime (driveTick startedShortest) ! 1) \<Longrightarrow>
      getNextSignal (stepPosition (coords (ROUTES shortest)) startedShortest) = Some 1"
    using advance_flag_driveTick [OF st(1,2) b, of 1] st(5,9) by simp
  have n: "\<not> (advanceTriggered (signalRuntime (driveTick startedShortest) ! 0)
        \<and> advanceTriggered (signalRuntime (driveTick startedShortest) ! 1))"
    using f0 f1 by auto
  from st(8,9) d0 d1 n untracked_in_crossingState show ?thesis by simp
qed

text \<open>
  Claim C4, amended. The advance-detection handler does nothing when the signal's flag is
  set or the distance is above 3.0 km; otherwise it sets the flag, the advance-detection
  and auto-control indicators, highlights the route line and writes the signal's detection
  line to the log. A tick runs it for the tracked signal only, with the distance measured
  in that tick: if the flag is not set and the distance is at most 3.0 km, the flag is set
  after the tick and the log has one more detection line of that signal. No tick clears a
  flag, and after a tick that moves the ambulance the flag of any signal is set exactly
  when it was set before, or the signal is the one tracked in the tick and is at most
  3.0 km from the new position. In a drive (a start followed by any number of ticks;
  signal ids distinct) the log holds the detection line of a signal once if its flag is
  set and not at all otherwise, so at most once. Once a signal is passed, no tick changes
  it or adds a detection line for it.
\<close>

theorem advance_detection_once:
  "(advanceTriggered (signalRuntime s ! k) \<or> \<not> d \<le> 3.0 \<longrightarrow>
      handleAdvanceDetectionFor k d s = s)
   \<and> (k < length (signalRuntime s) \<and> \<not> advanceTriggered (signalRuntime s ! k) \<and> d \<le> 3.0 \<longrightarrow>
        advanceTriggered (signalRuntime (handleAdvanceDetectionFor k d s) ! k)
        \<and> advanceDetectionUI (handleAdvanceDetectionFor k d s)
        \<and> autoControlUI (handleAdvanceDetectionFor k d s)
        \<and> selectedRouteLine (handleAdvanceDetectionFor k d s)
            = map_option (\<lambda>_. Green) (selectedRouteLine s)
        \<and> eventLog (handleAdvanceDetectionFor k d s)
            = EvAdvance (sid (signalRuntime s ! k)) # eventLog s)
   \<and> (isDriving s \<and> selectedRouteId s = Some r
        \<and> currentIndex s < length (coords (ROUTES r)) - 1
        \<and> getNextSignal (stepPosition (coords (ROUTES r)) s) = Some k
        \<and> \<not> advanceTriggered (signalRuntime s ! k)
        \<and> distanceKm (ambulancePos (stepPosition (coords (ROUTES r)) s))
              (location (signalRuntime s ! k)) \<le> 3.0 \<longrightarrow>
        advanceTriggered (signalRuntime (driveTick s) ! k)
        \<and> count_list (eventLog (driveTick s)) (EvAdvance (sid (signalRuntime s ! k)))
            = count_list (eventLog s) (EvAdvance (sid (signalRuntime s ! k))) + 1)
   \<and> (j < length (signalRuntime s) \<and> advanceTriggered (signalRuntime s ! j) \<longrightarrow>
        advanceTriggered (signalRuntime (driveTick s) ! j))
   \<and> (isDriving s \<and> selectedRouteId s = Some r
        \<and> currentIndex s < length (coords (ROUTES r)) - 1 \<and> j < length (signalRuntime s) \<longrightarrow>
        advanceTriggered (signalRuntime (driveTick s) ! j)
          = (advanceTriggered (signalRuntime s ! j)
             \<or> (getNextSignal (stepPosition (coords (ROUTES r)) s) = Some j
                 \<and> distanceKm (ambulancePos (stepPosition (coords (ROUTES r)) s))
                      (location (signalRuntime s ! j)) \<le> 3.0)))
   \<and> (distinct (map sid (signalRuntime s)) \<and> selectedRouteId s \<noteq> None \<and> \<not> isDriving s
        \<and> j < length (signalRuntime s) \<longrightarrow>
        count_list (eventLog (ticks n (startEmergencyDrive s))) (EvAdvance (sid (signalRuntime s ! j)))
          = (if advanceTriggered (signalRuntime (ticks n (startEmergencyDrive s)) ! j) then 1 else 0)
        \<and> count_list (eventLog (ticks n (startEmergencyDrive s))) (EvAdvance (sid (signalRuntime s ! j)))
          \<le> 1)
   \<and> (advance_logged s \<and> j < length (signalRuntime s) \<and> passed (signalRuntime s ! j) \<longrightarrow>
        signalRuntime (ticks n s) ! j = signalRuntime s ! j
        \<and> count_list (eventLog (ticks n s)) (EvAdvance (sid (signalRuntime s ! j)))
            = count_list (eventLog s) (EvAdvance (sid (signalRuntime s ! j))))"
proof (intro conjI impI)
  assume "advanceTriggered (signalRuntime s ! k) \<or> \<not> d \<le> 3.0"
  then show "handleAdvanceDetectionFor k d s = s"
    by (auto simp: handleAdvanceDetectionFor_def ADVANCE_DETECTION_KM_def Let_def)
next
  assume a: "k < length (signalRuntime s) \<and> \<not> advanceTriggered (signalRuntime s ! k) \<and> d \<le> 3.0"
  then have e: "handleAdvanceDetectionFor k d s
      = logEvent (EvAdvance (sid (signalRuntime s ! k)))
             (setRouteHighlight True (setAutoControl True (setAdvanceDetection True
                (upd_signal k (\<lambda>g. g\<lparr>advanceTriggered := True\<rparr>) s))))"
    by (simp add: handleAdvanceDetectionFor_def ADVANCE_DETECTION_KM_def Let_def)
  from a show "advanceTriggered (signalRuntime (handleAdvanceDetectionFor k d s) ! k)"
    by (simp add: signals_handleAdvance advanceSig_def ADVANCE_DETECTION_KM_def)
  show "advanceDetectionUI (handleAdvanceDetectionFor k d s)"
    "autoControlUI (handleAdvanceDetectionFor k d s)"
    "selectedRouteLine (handleAdvanceDetectionFor k d s) = map_option (\<lambda>_. Green) (selectedRouteLine s)"
    "eventLog (handleAdvanceDetectionFor k d s) = EvAdvance (sid (signalRuntime s ! k)) # eventLog s"
    unfolding e by (simp_all add: setters split: option.splits)
next
  assume a: "isDriving s \<and> selectedRouteId s = Some r
        \<and> currentIndex s < length (coords (ROUTES r)) - 1
        \<and> getNextSignal (stepPosition (coords (ROUTES r)) s) = Some k
        \<and> \<not> advanceTriggered (signalRuntime s ! k)
        \<and> distanceKm (ambulancePos (stepPosition (coords (ROUTES r)) s))
              (location (signalRuntime s ! k)) \<le> 3.0"
  then have t: "driveTick s = trackSignal k (stepPosition (coords (ROUTES r)) s)"
    by (simp add: driveTick_tracking)
  from a getNextSignal_candidate [of "stepPosition (coords (ROUTES r)) s" k]
  have kl: "k < length (signalRuntime (stepPosition (coords (ROUTES r)) s))" by simp
  from a show "advanceTriggered (signalRuntime (driveTick s) ! k)"
    unfolding t signals_trackSignal [OF kl] using kl
    by (simp add: signalTick_fields stepPosition_frame ADVANCE_DETECTION_KM_def)
  from a show "count_list (eventLog (driveTick s)) (EvAdvance (sid (signalRuntime s ! k)))
            = count_list (eventLog s) (EvAdvance (sid (signalRuntime s ! k))) + 1"
    unfolding t count_advance_trackSignal [OF kl]
    by (simp add: stepPosition_frame ADVANCE_DETECTION_KM_def)
next
  assume "j < length (signalRuntime s) \<and> advanceTriggered (signalRuntime s ! j)"
  then show "advanceTriggered (signalRuntime (driveTick s) ! j)"
    by (simp add: advance_kept_driveTick)
next
  assume "isDriving s \<and> selectedRouteId s = Some r
        \<and> currentIndex s < length (coords (ROUTES r)) - 1 \<and> j < length (signalRuntime s)"
  then show "advanceTriggered (signalRuntime (driveTick s) ! j)
          = (advanceTriggered (signalRuntime s ! j)
             \<or> (getNextSignal (stepPosition (coords (ROUTES r)) s) = Some j
                 \<and> distanceKm (ambulancePos (stepPosition (coords (ROUTES r)) s))
                      (location (signalRuntime s ! j)) \<le> 3.0))"
    using advance_flag_driveTick [of s r j] by (simp add: ADVANCE_DETECTION_KM_def)
next
  assume a: "distinct (map sid (signalRuntime s)) \<and> selectedRouteId s \<noteq> None \<and> \<not> isDriving s
        \<and> j < length (signalRuntime s)"
  then obtain r where r: "selectedRouteId s = Some r" by auto
  let ?s = "ticks n (startEmergencyDrive s)"
  from a r have al: "advance_logged ?s"
    by (intro advance_logged_ticks advance_logged_start) simp_all
  have ids: "map sid (signalRuntime ?s) = map sid (signalRuntime s)"
    using a r by (simp add: sids_ticks startEmergencyDrive_started(9) comp_def)
  have len: "length (signalRuntime ?s) = length (signalRuntime s)"
    using arg_cong [OF ids, of length] by simp
  have sj: "sid (signalRuntime ?s ! j) = sid (signalRuntime s ! j)"
    using arg_cong [OF ids, of "\<lambda>xs. xs ! j"] a len by simp
  from al a len
  have "count_list (eventLog ?s) (EvAdvance (sid (signalRuntime ?s ! j)))
          = (if advanceTriggered (signalRuntime ?s ! j) then 1 else 0)"
    by (simp add: advance_logged_def list_all_length)
  then show c: "count_list (eventLog ?s) (EvAdvance (sid (signalRuntime s ! j)))
          = (if advanceTriggered (signalRuntime ?s ! j) then 1 else 0)"
    by (simp add: sj)
  then show "count_list (eventLog ?s) (EvAdvance (sid (signalRuntime s ! j))) \<le> 1"
    by simp
next
  assume a: "advance_logged s \<and> j < length (signalRuntime s) \<and> passed (signalRuntime s ! j)"
  then show "signalRuntime (ticks n s) ! j = signalRuntime s ! j"
    "count_list (eventLog (ticks n s)) (EvAdvance (sid (signalRuntime s ! j)))
            = count_list (eventLog s) (EvAdvance (sid (signalRuntime s ! j)))"
    using passed_frozen_ticks [of s j n] by simp_all
qed

text \<open>
  C4 on the example states: the handler on S1 (flag set) and on S2 at 2.5 km; a tick of
  \<open>afterFirstCrossing\<close>, which tracks S2 less than 3.0 km away, keeps the flag of S1 and
  leaves the flag of S3 unset; a started drive of the shortest route after 3 ticks; and
  S1, passed, over 5 ticks.
\<close>

theorem advance_detection_once_witness:
  "handleAdvanceDetectionFor 0 1 crossingState = crossingState
   \<and> advanceTriggered (signalRuntime (handleAdvanceDetectionFor 1 2.5 crossingState) ! 1)
   \<and> eventLog (handleAdvanceDetectionFor 1 2.5 crossingState)
       = EvAdvance ''S2'' # eventLog crossingState
   \<and> getNextSignal (stepPosition (coords (ROUTES shortest)) afterFirstCrossing) = Some 1
   \<and> distanceKm (ambulancePos (stepPosition (coords (ROUTES shortest)) afterFirstCrossing))
         (location (signalRuntime afterFirstCrossing ! 1)) \<le> 3.0
   \<and> advanceTriggered (signalRuntime (driveTick afterFirstCrossing) ! 1)
   \<and> count_list (eventLog (driveTick afterFirstCrossing)) (EvAdvance ''S2'') = 1
   \<and> advanceTriggered (signalRuntime (driveTick afterFirstCrossing) ! 0)
   \<and> \<not> advanceTriggered (signalRuntime (driveTick afterFirstCrossing) ! 2)
   \<and> count_list (eventLog (ticks 3 (startEmergencyDrive (setSelectedRoute shortest loadedState))))
         (EvAdvance ''S1'') \<le> 1
   \<and> advance_logged afterFirstCrossing
   \<and> passed (signalRuntime afterFirstCrossing ! 0)
   \<and> count_list (eventLog (ticks 5 afterFirstCrossing)) (EvAdvance ''S1'') = 1"
proof -
  have c0: "advanceTriggered (signalRuntime crossingState ! 0) \<or> \<not> (1::real) \<le> 3.0"
    by (simp add: crossingState_def loadedState_def)
  have c1: "1 < length (signalRuntime crossingState)
      \<and> \<not> advanceTriggered (signalRuntime crossingState ! 1) \<and> (2.5::real) \<le> 3.0"
    "sid (signalRuntime crossingState ! 1) = ''S2''"
    by (simp_all add: crossingState_def loadedState_def)
  have n: "getNextSignal (stepPosition (coords (ROUTES shortest)) afterFirstCrossing) = Some 1"
    by (simp add: getNextSignal_def candidates_def stepPosition_def afterFirstCrossing_def
        loadedState_def Let_def sort_by_def STEP_def TICK_MS_def SEGMENT_TIME_MS_def
        upt_rec [of 0] upt_rec [of 1] upt_rec [of 2] upt_rec [of 3])
  have pos: "ambulancePos (stepPosition (coords (ROUTES shortest)) afterFirstCrossing)
      = interpolatePoint (10.9548, 78.0736) (10.9606, 78.0780) (0.7 + 1 / 21)"
    by (simp add: stepPosition_def afterFirstCrossing_def loadedState_def Let_def STEP_def
        TICK_MS_def SEGMENT_TIME_MS_def ROUTES_def)
  have loc: "location (signalRuntime afterFirstCrossing ! 1) = (10.9639, 78.0795)"
    "sid (signalRuntime afterFirstCrossing ! 1) = ''S2''"
    "sid (signalRuntime afterFirstCrossing ! 0) = ''S1''"
    by (simp_all add: afterFirstCrossing_def loadedState_def)
  have d: "distanceKm (ambulancePos (stepPosition (coords (ROUTES shortest)) afterFirstCrossing))
         (location (signalRuntime afterFirstCrossing ! 1)) \<le> 3.0"
    unfolding pos loc
    using distanceKm_near [of "(10.9639, 78.0795)"
        "interpolatePoint (10.9548, 78.0736) (10.9606, 78.0780) (0.7 + 1 / 21)"]
    by (simp add: interpolatePoint_def power2_eq_square)
  have a: "isDriving afterFirstCrossing \<and> selectedRouteId afterFirstCrossing = Some shortest
        \<and> currentIndex afterFirstCrossing < length (coords (ROUTES shortest)) - 1"
    "\<not> advanceTriggered (signalRuntime afterFirstCrossing ! 1)"
    "0 < length (signalRuntime afterFirstCrossing)
       \<and> advanceTriggered (signalRuntime afterFirstCrossing ! 0)"
    "passed (signalRuntime afterFirstCrossing ! 0)"
    "count_list (eventLog afterFirstCrossing) (EvAdvance ''S2'') = 0"
    "count_list (eventLog afterFirstCrossing) (EvAdvance ''S1'') = 1"
    "2 < length (signalRuntime afterFirstCrossing)"
    "\<not> advanceTriggered (signalRuntime afterFirstCrossing ! 2)"
    by (simp_all add: afterFirstCrossing_def loadedState_def ROUTES_def)
  have al: "advance_logged afterFirstCrossing"
    by (simp add: advance_logged_def afterFirstCrossing_def loadedState_def)
  have st: "distinct (map sid (signalRuntime (setSelectedRoute shortest loadedState)))
      \<and> selectedRouteId (setSelectedRoute shortest loadedState) \<noteq> None
      \<and> \<not> isDriving (setSelectedRoute shortest loadedState)
      \<and> 0 < length (signalRuntime (setSelectedRoute shortest loadedState))"
    "sid (signalRuntime (setSelectedRoute shortest loadedState) ! 0) = ''S1''"
    by (simp_all add: setSelectedRoute_def setRouteHighlight_def loadedState_def SIGNAL_DEFS_def
        initialSignal_def)
  have 1: "handleAdvanceDetectionFor 0 1 crossingState = crossingState"
    using advance_detection_once [of crossingState 0 1] c0 by blast
  have 2: "advanceTriggered (signalRuntime (handleAdvanceDetectionFor 1 2.5 crossingState) ! 1)
      \<and> eventLog (handleAdvanceDetectionFor 1 2.5 crossingState)
           = EvAdvance ''S2'' # eventLog crossingState"
    using advance_detection_once [of crossingState 1 "2.5"] c1 by simp
  have 3: "advanceTriggered (signalRuntime (driveTick afterFirstCrossing) ! 1)
      \<and> count_list (eventLog (driveTick afterFirstCrossing)) (EvAdvance ''S2'') = 1"
    using advance_detection_once [of afterFirstCrossing 1 _ shortest] a(1,2,5) n d loc(2) by simp
  have 4: "advanceTriggered (signalRuntime (driveTick afterFirstCrossing) ! 0)"
    using advance_detection_once [of afterFirstCrossing _ _ _ 0] a(3) by blast
  have 5: "count_list (eventLog (ticks 3 (startEmergencyDrive (setSelectedRoute shortest loadedState))))
         (EvAdvance ''S1'') \<le> 1"
    using advance_detection_once [of "setSelectedRoute shortest loadedState" _ _ _ 0 3] st
    by simp
  have 6: "count_list (eventLog (ticks 5 afterFirstCrossing)) (EvAdvance ''S1'') = 1"
    using advance_detection_once [of afterFirstCrossing _ _ _ 0 5] al a(3,4,6) loc(3) by simp
  have 7: "\<not> advanceTriggered (signalRuntime (driveTick afterFirstCrossing) ! 2)"
    using advance_detection_once [of afterFirstCrossing _ _ shortest 2] a(1,7,8) n by simp
  from 1 2 3 4 5 6 7 n d al a(4) show ?thesis by simp
qed

end
